theory Spec2Isabelle
  imports Main "HOL-Library.Word"
begin

section \<open>The CR95HF driver of \<open>circuitpython_yoto/cr95hf.py\<close>\<close>

subsection \<open>Bytes, constants and errors\<close>

type_synonym byte = "8 word"

definition CMD_IDN :: byte where "CMD_IDN = 0x01"
definition CMD_PROTOCOL :: byte where "CMD_PROTOCOL = 0x02"
definition CMD_SENDRECV :: byte where "CMD_SENDRECV = 0x04"
definition CMD_ECHO :: byte where "CMD_ECHO = 0x55"

definition RSP_SUCCESS :: byte where "RSP_SUCCESS = 0x00"
definition RSP_DATA :: byte where "RSP_DATA = 0x80"

definition PROTO_OFF :: byte where "PROTO_OFF = 0x00"
definition PROTO_ISO14443A :: byte where "PROTO_ISO14443A = 0x02"

definition ISO14443A_REQA :: byte where "ISO14443A_REQA = 0x26"
definition ISO14443A_WUPA :: byte where "ISO14443A_WUPA = 0x52"
definition ISO14443A_CT :: byte where "ISO14443A_CT = 0x88"
definition ISO14443A_SEL_CL1 :: byte where "ISO14443A_SEL_CL1 = 0x93"
definition ISO14443A_SEL_CL2 :: byte where "ISO14443A_SEL_CL2 = 0x95"
definition ISO14443A_NVB_ANTICOLL :: byte where "ISO14443A_NVB_ANTICOLL = 0x20"
definition ISO14443A_NVB_SELECT :: byte where "ISO14443A_NVB_SELECT = 0x70"

definition FLAG_SHORTFRAME :: byte where "FLAG_SHORTFRAME = 0x07"
definition FLAG_STD :: byte where "FLAG_STD = 0x08"
definition FLAG_STD_CRC :: byte where "FLAG_STD_CRC = 0x28"

lemmas consts_defs =
  CMD_IDN_def CMD_PROTOCOL_def CMD_SENDRECV_def CMD_ECHO_def RSP_SUCCESS_def RSP_DATA_def
  PROTO_OFF_def PROTO_ISO14443A_def ISO14443A_REQA_def ISO14443A_WUPA_def ISO14443A_CT_def
  ISO14443A_SEL_CL1_def ISO14443A_SEL_CL2_def ISO14443A_NVB_ANTICOLL_def
  ISO14443A_NVB_SELECT_def FLAG_SHORTFRAME_def FLAG_STD_def FLAG_STD_CRC_def

text \<open>
  The three messages of the \<open>TimeoutError\<close> raised by \<open>_read_response\<close>; the third
  carries the two numbers of its f-string, \<open>got {len(data)}/{length} bytes\<close>.
\<close>

datatype timeout_msg =
    ResultCodeWait
  | LengthByteWait
  | DataWait nat nat

text \<open>
  The messages of the \<open>OSError\<close>s raised by \<open>echo_test\<close> and \<open>_initialize\<close>.
  \<open>InitFailed\<close> wraps the echo test's error, the two \<open>...Timeout\<close> messages wrap
  the \<open>TimeoutError\<close> caught in \<open>_initialize\<close>.
\<close>

datatype os_msg =
    EchoMismatch byte
  | EchoNoResponse
  | InitFailed os_msg
  | DeviceIdTimeout timeout_msg
  | InvalidIDN byte
  | ProtocolTimeout timeout_msg
  | ProtocolFailed byte

text \<open>
  \<open>TypeError\<close> is what Python raises on \<open>uart.read(1)[0]\<close> or \<open>data.extend(chunk)\<close>
  when the read returned \<open>None\<close>; \<open>ValueError\<close> is \<open>bytes([cmd, len(data)])\<close> with a
  payload of more than 255 bytes.
\<close>

datatype error =
    TimeoutError timeout_msg
  | OSError os_msg
  | TypeError
  | ValueError

subsection \<open>The serial channel and the clock\<close>

text \<open>
  The collaborators of the driver: a UART (\<open>in_waiting\<close>, \<open>read\<close>, \<open>write\<close>) and
  \<open>time.monotonic\<close>/\<open>time.sleep\<close>. Time is counted in microseconds. The line is a FIFO of chunks, each with the time at which it
  reaches the receive buffer; a chunk is delivered once its time and the times of all chunks
  before it have passed. \<open>script\<close> holds what the chip at the other end answers to each
  successive \<open>write\<close>: a list of chunks with their delays. Every reading of the clock takes
  \<open>Suc lag\<close> microseconds; the other operations take no time, apart from \<open>sleep\<close>.
\<close>

text \<open>
  The source compares floats, \<open>time.monotonic() - start > timeout_s\<close>. Two clock
  values a microsecond apart are far enough for the float comparison to agree with the exact
  one; when the exact elapsed time equals the limit, the float difference can fall on either
  side of the float limit or on it. \<open>edge w start t\<close> is that outcome for the clock values
  \<open>start\<close> and \<open>t\<close>: the channel fixes it, the driver cannot.
\<close>

datatype rounding = Below | Exact | Above

record uart_world =
  now :: nat
  lag :: nat
  rx :: "byte list"
  line :: "(nat \<times> byte list) list"
  script :: "(nat \<times> byte list) list list"
  tx :: "byte list list"
  edge :: "nat \<Rightarrow> nat \<Rightarrow> rounding"

definition due :: "nat \<Rightarrow> nat \<times> byte list \<Rightarrow> bool" where
  "due t c = (fst c \<le> t)"

definition deliver :: "uart_world \<Rightarrow> uart_world" where
  "deliver w = w\<lparr>rx := rx w @ concat (map snd (takeWhile (due (now w)) (line w))),
                 line := dropWhile (due (now w)) (line w)\<rparr>"

definition in_waiting :: "uart_world \<Rightarrow> nat \<times> uart_world" where
  "in_waiting w = (length (rx (deliver w)), deliver w)"

text \<open>\<open>uart.read(n)\<close>: up to \<open>n\<close> buffered bytes, \<open>None\<close> when there is none.\<close>

definition uart_read :: "nat \<Rightarrow> uart_world \<Rightarrow> byte list option \<times> uart_world" where
  "uart_read n w =
     (let w1 = deliver w; got = take n (rx w1)
      in (if got = [] then None else Some got, w1\<lparr>rx := drop n (rx w1)\<rparr>))"

definition uart_write :: "byte list \<Rightarrow> uart_world \<Rightarrow> uart_world" where
  "uart_write buf w =
     (case script w of
        [] \<Rightarrow> w\<lparr>tx := tx w @ [buf]\<rparr>
      | r # rs \<Rightarrow> w\<lparr>tx := tx w @ [buf], script := rs,
                     line := line w @ map (\<lambda>c. (now w + fst c, snd c)) r\<rparr>)"

definition monotonic :: "uart_world \<Rightarrow> nat \<times> uart_world" where
  "monotonic w = (now w, w\<lparr>now := now w + Suc (lag w)\<rparr>)"

definition sleep :: "nat \<Rightarrow> uart_world \<Rightarrow> uart_world" where
  "sleep us w = w\<lparr>now := now w + us\<rparr>"

text \<open>
  \<open>t - start > limit\<close> and \<open>t - start < limit\<close> as the source evaluates them, \<open>t\<close> and
  \<open>start\<close> two readings of the clock and \<open>limit\<close> in microseconds.
\<close>

definition elapsed_gt :: "uart_world \<Rightarrow> nat \<Rightarrow> nat \<Rightarrow> nat \<Rightarrow> bool" where
  "elapsed_gt w t start limit =
     (t - start > limit \<or> (t = start + limit \<and> edge w start t = Above))"

definition elapsed_lt :: "uart_world \<Rightarrow> nat \<Rightarrow> nat \<Rightarrow> nat \<Rightarrow> bool" where
  "elapsed_lt w t start limit =
     (t - start < limit \<or> (t = start + limit \<and> edge w start t = Below))"

text \<open>
  Two views of the channel used to state what the driver receives: \<open>stream\<close>, all the
  bytes the driver has still to read, in order; and \<open>arrived w t\<close>, those of them that
  are in the receive buffer by time \<open>t\<close> if nothing is read before.
\<close>

definition stream :: "uart_world \<Rightarrow> byte list" where
  "stream w = rx w @ concat (map snd (line w))"

definition arrived :: "uart_world \<Rightarrow> nat \<Rightarrow> byte list" where
  "arrived w t = rx w @ concat (map snd (takeWhile (due t) (line w)))"

text \<open>
  Three abbreviations for the proofs: the number of bytes of \<open>arrived\<close>, the channel after
  one reading of the clock, and the channel after \<open>m\<close> buffered bytes are taken.
\<close>

definition avail :: "uart_world \<Rightarrow> nat \<Rightarrow> nat" where
  "avail w t = length (arrived w t)"

definition tick :: "uart_world \<Rightarrow> uart_world" where
  "tick w = w\<lparr>now := now w + Suc (lag w)\<rparr>"

definition consume :: "nat \<Rightarrow> uart_world \<Rightarrow> uart_world" where
  "consume m w = w\<lparr>rx := drop m (rx w)\<rparr>"

subsection \<open>Transport: \<open>_flush_rx\<close>, \<open>_send_cmd\<close>, \<open>_read_response\<close>\<close>

lemma takeWhile_dropWhile_same [simp]: "takeWhile P (dropWhile P xs) = []"
  by (induction xs) auto

lemma deliver_idem: "deliver (deliver w) = deliver w"
  by (simp add: deliver_def)

lemma now_deliver: "now (deliver w) = now w"
  by (simp add: deliver_def)

lemma lag_deliver: "lag (deliver w) = lag w"
  by (simp add: deliver_def)

text \<open>\<open>while self.uart.in_waiting: self.uart.read(self.uart.in_waiting)\<close>\<close>

function flush_rx :: "uart_world \<Rightarrow> uart_world" where
  "flush_rx w =
     (case in_waiting w of (n, w1) \<Rightarrow>
        if n \<noteq> 0 then
          (case in_waiting w1 of (m, w2) \<Rightarrow>
             case uart_read m w2 of (_, w3) \<Rightarrow> flush_rx w3)
        else w1)"
  by pat_completeness auto
termination
proof (relation "measure (\<lambda>w. length (rx (deliver w)))", goal_cases)
  case 1
  show ?case by simp
next
  case (2 w x1 x2 y1 y2 z1 z2)
  then show ?case
    by (auto simp: in_waiting_def uart_read_def Let_def deliver_idem)
       (auto simp: deliver_def)
qed

declare flush_rx.simps [simp del]

text \<open>
  \<open>frame = bytes([cmd, len(data)]) + data\<close>, then flush, then write. \<open>bytes\<close> raises
  \<open>ValueError\<close> for an element above 255.
\<close>

definition send_cmd :: "byte \<Rightarrow> byte list \<Rightarrow> uart_world \<Rightarrow> (error + unit) \<times> uart_world" where
  "send_cmd cmd data w =
     (if length data > 255 then (Inl ValueError, w)
      else (let frame = [cmd, of_nat (length data)] @ data
            in (Inr (), uart_write frame (flush_rx w))))"

text \<open>
  The loop that waits for one byte, written twice in \<open>_read_response\<close>:
  \<open>while self.uart.in_waiting == 0: if time.monotonic() - start > timeout_s: raise\<close>.
  \<open>False\<close> is the raise; the caller supplies the message.
\<close>

function wait_byte :: "nat \<Rightarrow> nat \<Rightarrow> uart_world \<Rightarrow> bool \<times> uart_world" where
  "wait_byte start timeout_us w =
     (case in_waiting w of (n, w1) \<Rightarrow>
        if n = 0 then
          (case monotonic w1 of (t, w2) \<Rightarrow>
             if elapsed_gt w2 t start timeout_us then (False, w2)
             else wait_byte start timeout_us w2)
        else (True, w1))"
  by pat_completeness auto
termination
  by (relation "measure (\<lambda>(start, timeout_us, w). Suc (start + timeout_us) - now w)")
     (auto simp: in_waiting_def monotonic_def now_deliver elapsed_gt_def)

declare wait_byte.simps [simp del]

text \<open>
  \<open>while len(data) < length: ...\<close>, the payload loop of \<open>_read_response\<close>.
\<close>

function read_data ::
  "nat \<Rightarrow> nat \<Rightarrow> nat \<Rightarrow> byte list \<Rightarrow> uart_world \<Rightarrow> (error + byte list) \<times> uart_world" where
  "read_data start timeout_us len data w =
     (if length data < len then
        (case in_waiting w of (available, w1) \<Rightarrow>
           if available > 0 then
             (case uart_read (min available (len - length data)) w1 of
                (None, w2) \<Rightarrow> (Inl TypeError, w2)
              | (Some chunk, w2) \<Rightarrow> read_data start timeout_us len (data @ chunk) w2)
           else
             (case monotonic w1 of (t, w2) \<Rightarrow>
                if elapsed_gt w2 t start timeout_us
                then (Inl (TimeoutError (DataWait (length data) len)), w2)
                else read_data start timeout_us len data w2))
      else (Inr data, w))"
  by pat_completeness auto
termination
proof (relation "measures [\<lambda>(start, timeout_us, len, data, w). len - length data,
                           \<lambda>(start, timeout_us, len, data, w). Suc (start + timeout_us) - now w]",
       goal_cases)
  case 1
  show ?case by simp
next
  case (2 start timeout_us len data w x1 x2 y1 y2 chunk)
  then have c: "chunk = take (min x1 (len - length data)) (rx (deliver w))"
    and x: "x1 = length (rx (deliver w))" and p: "0 < x1" and l: "length data < len"
    by (auto simp: in_waiting_def uart_read_def Let_def deliver_idem split: if_splits)
  have "length chunk = min x1 (len - length data)"
    by (simp add: c x)
  with p l have "len - (length data + length chunk) < len - length data"
    by arith
  then show ?case
    by simp
next
  case (3 start timeout_us len data w x1 x2 y1 y2)
  then show ?case
    by (auto simp: in_waiting_def monotonic_def now_deliver elapsed_gt_def)
qed

declare read_data.simps [simp del]

text \<open>\<open>_read_response(timeout_ms)\<close>; \<open>timeout_us\<close> is the source's \<open>timeout_s\<close>.\<close>

definition read_response ::
  "nat \<Rightarrow> uart_world \<Rightarrow> (error + byte \<times> byte list) \<times> uart_world" where
  "read_response timeout_ms w =
     (case monotonic w of (start, w0) \<Rightarrow>
      let timeout_us = timeout_ms * 1000 in
      case wait_byte start timeout_us w0 of
        (False, w1) \<Rightarrow> (Inl (TimeoutError ResultCodeWait), w1)
      | (True, w1) \<Rightarrow>
         (case uart_read 1 w1 of
            (None, w2) \<Rightarrow> (Inl TypeError, w2)
          | (Some r, w2) \<Rightarrow>
             let result_code = hd r in
             (case wait_byte start timeout_us w2 of
                (False, w3) \<Rightarrow> (Inl (TimeoutError LengthByteWait), w3)
              | (True, w3) \<Rightarrow>
                 (case uart_read 1 w3 of
                    (None, w4) \<Rightarrow> (Inl TypeError, w4)
                  | (Some l, w4) \<Rightarrow>
                     let len = unat (hd l) in
                     (case read_data start timeout_us len [] w4 of
                        (Inl e, w5) \<Rightarrow> (Inl e, w5)
                      | (Inr data, w5) \<Rightarrow> (Inr (result_code, data), w5))))))"


subsection \<open>Bring-up: \<open>echo_test\<close> and \<open>_initialize\<close>\<close>

text \<open>
  The driver object: the channel it owns and its two retained fields
  (\<open>_device_name\<close>, \<open>_last_atqa\<close>). The methods that touch \<open>self.uart\<close> only are
  functions of the channel.
\<close>

record cr95hf =
  uart :: uart_world
  device_name :: string
  last_atqa :: "byte list"

text \<open>The loop of \<open>echo_test\<close>, \<open>while time.monotonic() - start < 0.1\<close>.\<close>

function echo_wait :: "nat \<Rightarrow> uart_world \<Rightarrow> (error + unit) \<times> uart_world" where
  "echo_wait start w =
     (case monotonic w of (t, w1) \<Rightarrow>
        if elapsed_lt w1 t start 100000 then
          (case in_waiting w1 of (n, w2) \<Rightarrow>
             if n > 0 then
               (case uart_read 1 w2 of
                  (None, w3) \<Rightarrow> (Inl TypeError, w3)
                | (Some r, w3) \<Rightarrow>
                    let resp = hd r in
                    if resp = CMD_ECHO then (Inr (), w3)
                    else (Inl (OSError (EchoMismatch resp)), w3))
             else echo_wait start w2)
        else (Inl (OSError EchoNoResponse), w1))"
  by pat_completeness auto
termination
  by (relation "measure (\<lambda>(start, w). Suc (start + 100000) - now w)")
     (auto simp: in_waiting_def monotonic_def now_deliver elapsed_lt_def)

declare echo_wait.simps [simp del]

definition echo_test :: "uart_world \<Rightarrow> (error + unit) \<times> uart_world" where
  "echo_test w =
     (let w1 = uart_write [CMD_ECHO] (flush_rx w)
      in case monotonic w1 of (start, w2) \<Rightarrow> echo_wait start w2)"

text \<open>
  The wake-up loop of \<open>_initialize\<close>:
  \<open>while time.monotonic() - start < wake_pulse_ms / 1000.0: write(wake_bytes); sleep(0.001)\<close>.
\<close>

function wake_loop :: "nat \<Rightarrow> nat \<Rightarrow> uart_world \<Rightarrow> uart_world" where
  "wake_loop start wake_us w =
     (case monotonic w of (t, w1) \<Rightarrow>
        if elapsed_lt w1 t start wake_us
        then wake_loop start wake_us (sleep 1000 (uart_write (replicate 20 0) w1))
        else w1)"
  by pat_completeness auto
termination
  by (relation "measure (\<lambda>(start, wake_us, w). Suc (start + wake_us) - now w)")
     (auto simp: monotonic_def sleep_def uart_write_def elapsed_lt_def split: list.splits)

declare wake_loop.simps [simp del]

text \<open>
  The loop that builds \<open>_device_name\<close>: stop at the first null byte, keep the bytes
  from 32 to 126, skip the others.
\<close>

fun extract_name :: "byte list \<Rightarrow> string \<Rightarrow> string" where
  "extract_name [] name = name"
| "extract_name (b # bs) name =
     (if b = 0 then name
      else if 32 \<le> b \<and> b \<le> 126 then extract_name bs (name @ [char_of (unat b)])
      else extract_name bs name)"

text \<open>
  The wake-up block that opens \<open>_initialize\<close>: flush, the burst of null bytes,
  \<open>time.sleep(0.015)\<close>, flush.
\<close>

definition wake_up :: "nat \<Rightarrow> uart_world \<Rightarrow> uart_world" where
  "wake_up wake_pulse_ms w =
     (let w1 = flush_rx w in
      case monotonic w1 of (start, w2) \<Rightarrow>
      let w3 = wake_loop start (wake_pulse_ms * 1000) w2
      in flush_rx (sleep 15000 w3))"

definition initialize :: "nat \<Rightarrow> cr95hf \<Rightarrow> (error + unit) \<times> cr95hf" where
  "initialize wake_pulse_ms self =
     (case echo_test (wake_up wake_pulse_ms (uart self)) of
        (Inl (OSError m), w5) \<Rightarrow> (Inl (OSError (InitFailed m)), self\<lparr>uart := w5\<rparr>)
      | (Inl e, w5) \<Rightarrow> (Inl e, self\<lparr>uart := w5\<rparr>)
      | (Inr _, w5) \<Rightarrow>
         (case send_cmd CMD_IDN [] w5 of
            (Inl e, w6) \<Rightarrow> (Inl e, self\<lparr>uart := w6\<rparr>)
          | (Inr _, w6) \<Rightarrow>
             (case read_response 100 w6 of
                (Inl (TimeoutError m), w7) \<Rightarrow>
                  (Inl (OSError (DeviceIdTimeout m)), self\<lparr>uart := w7\<rparr>)
              | (Inl e, w7) \<Rightarrow> (Inl e, self\<lparr>uart := w7\<rparr>)
              | (Inr (code, data), w7) \<Rightarrow>
                  if code \<noteq> RSP_SUCCESS \<or> data = [] \<or> length data < 13
                  then (Inl (OSError (InvalidIDN code)), self\<lparr>uart := w7\<rparr>)
                  else
                    let device_bytes = take 13 data;
                        self1 = self\<lparr>device_name := extract_name device_bytes []\<rparr>
                    in
                    (case send_cmd CMD_PROTOCOL [PROTO_ISO14443A, 0x00] w7 of
                       (Inl e, w8) \<Rightarrow> (Inl e, self1\<lparr>uart := w8\<rparr>)
                     | (Inr _, w8) \<Rightarrow>
                        (case read_response 100 w8 of
                           (Inl (TimeoutError m), w9) \<Rightarrow>
                             (Inl (OSError (ProtocolTimeout m)), self1\<lparr>uart := w9\<rparr>)
                         | (Inl e, w9) \<Rightarrow> (Inl e, self1\<lparr>uart := w9\<rparr>)
                         | (Inr (code2, data2), w9) \<Rightarrow>
                             if code2 \<noteq> RSP_SUCCESS
                             then (Inl (OSError (ProtocolFailed code2)), self1\<lparr>uart := w9\<rparr>)
                             else (Inr (), self1\<lparr>uart := w9\<rparr>))))))"

text \<open>\<open>__init__\<close>: the fields' first values, then \<open>_initialize\<close>.\<close>

definition init :: "uart_world \<Rightarrow> nat \<Rightarrow> (error + unit) \<times> cr95hf" where
  "init u wake_pulse_ms =
     initialize wake_pulse_ms \<lparr>uart = u, device_name = [], last_atqa = [0, 0]\<rparr>"

subsection \<open>Tag discovery\<close>

definition sendrecv ::
  "byte list \<Rightarrow> byte \<Rightarrow> uart_world \<Rightarrow> (error + byte \<times> byte list) \<times> uart_world" where
  "sendrecv rf_data flags w =
     (let cmd_data = rf_data @ [flags] in
      case send_cmd CMD_SENDRECV cmd_data w of
        (Inl e, w1) \<Rightarrow> (Inl e, w1)
      | (Inr _, w1) \<Rightarrow> read_response 50 w1)"

text \<open>\<open>(None, None)\<close> is \<open>None\<close>, \<open>(data[0], data[1])\<close> is \<open>Some\<close> of the pair.\<close>

definition reqa_wupa ::
  "byte \<Rightarrow> uart_world \<Rightarrow> (error + (byte \<times> byte) option) \<times> uart_world" where
  "reqa_wupa cmd w =
     (case sendrecv [cmd] FLAG_SHORTFRAME w of
        (Inl e, w1) \<Rightarrow> (Inl e, w1)
      | (Inr (code, data), w1) \<Rightarrow>
          if code = RSP_DATA \<and> data \<noteq> [] \<and> length data \<ge> 2
          then (Inr (Some (data ! 0, data ! 1)), w1)
          else (Inr None, w1))"

definition anticoll_cl1 :: "uart_world \<Rightarrow> (error + byte list option) \<times> uart_world" where
  "anticoll_cl1 w =
     (let rf_data = [ISO14443A_SEL_CL1, ISO14443A_NVB_ANTICOLL] in
      case sendrecv rf_data FLAG_STD w of
        (Inl e, w1) \<Rightarrow> (Inl e, w1)
      | (Inr (code, data), w1) \<Rightarrow>
          if code = RSP_DATA \<and> data \<noteq> [] \<and> length data \<ge> 5
          then (Inr (Some (take 5 data)), w1)
          else (Inr None, w1))"

definition select_cl1 :: "byte list \<Rightarrow> uart_world \<Rightarrow> (error + byte option) \<times> uart_world" where
  "select_cl1 uid_bcc w =
     (let rf_data = [ISO14443A_SEL_CL1, ISO14443A_NVB_SELECT] @ uid_bcc in
      case sendrecv rf_data FLAG_STD_CRC w of
        (Inl e, w1) \<Rightarrow> (Inl e, w1)
      | (Inr (code, data), w1) \<Rightarrow>
          if code = RSP_DATA \<and> data \<noteq> [] \<and> length data \<ge> 1
          then (Inr (Some (data ! 0)), w1)
          else (Inr None, w1))"

definition anticoll_cl2 :: "uart_world \<Rightarrow> (error + byte list option) \<times> uart_world" where
  "anticoll_cl2 w =
     (let rf_data = [ISO14443A_SEL_CL2, ISO14443A_NVB_ANTICOLL] in
      case sendrecv rf_data FLAG_STD w of
        (Inl e, w1) \<Rightarrow> (Inl e, w1)
      | (Inr (code, data), w1) \<Rightarrow>
          if code = RSP_DATA \<and> data \<noteq> [] \<and> length data \<ge> 5
          then (Inr (Some (take 5 data)), w1)
          else (Inr None, w1))"

definition select_cl2 :: "byte list \<Rightarrow> uart_world \<Rightarrow> (error + byte option) \<times> uart_world" where
  "select_cl2 uid_bcc w =
     (let rf_data = [ISO14443A_SEL_CL2, ISO14443A_NVB_SELECT] @ uid_bcc in
      case sendrecv rf_data FLAG_STD_CRC w of
        (Inl e, w1) \<Rightarrow> (Inl e, w1)
      | (Inr (code, data), w1) \<Rightarrow>
          if code = RSP_DATA \<and> data \<noteq> [] \<and> length data \<ge> 1
          then (Inr (Some (data ! 0)), w1)
          else (Inr None, w1))"

text \<open>
  \<open>read_tag\<close>. \<open>(None, None)\<close> is \<open>Inr None\<close>, a tag is \<open>Inr (Some (uid, sak))\<close>, an
  exception that leaves the method is \<open>Inl\<close>. \<open>cl1\<close> and \<open>cl2\<close> have five bytes
  when they are not \<open>None\<close>, so \<open>cl1[0]\<close> and the slices are in range.
\<close>

definition read_tag :: "cr95hf \<Rightarrow> (error + (byte list \<times> byte) option) \<times> cr95hf" where
  "read_tag self =
     (case reqa_wupa ISO14443A_WUPA (uart self) of
        (Inl e, w1) \<Rightarrow> (Inl e, self\<lparr>uart := w1\<rparr>)
      | (Inr atqa, w1) \<Rightarrow>
         (case (if atqa = None then reqa_wupa ISO14443A_REQA w1 else (Inr atqa, w1)) of
            (Inl e, w2) \<Rightarrow> (Inl e, self\<lparr>uart := w2\<rparr>)
          | (Inr None, w2) \<Rightarrow> (Inr None, self\<lparr>uart := w2\<rparr>)
          | (Inr (Some (atqa1, atqa2)), w2) \<Rightarrow>
             let self1 = self\<lparr>last_atqa := (last_atqa self)[0 := atqa1, 1 := atqa2]\<rparr> in
             (case anticoll_cl1 w2 of
                (Inl e, w3) \<Rightarrow> (Inl e, self1\<lparr>uart := w3\<rparr>)
              | (Inr None, w3) \<Rightarrow> (Inr None, self1\<lparr>uart := w3\<rparr>)
              | (Inr (Some cl1), w3) \<Rightarrow>
                 (case select_cl1 cl1 w3 of
                    (Inl e, w4) \<Rightarrow> (Inl e, self1\<lparr>uart := w4\<rparr>)
                  | (Inr None, w4) \<Rightarrow> (Inr None, self1\<lparr>uart := w4\<rparr>)
                  | (Inr (Some sak1), w4) \<Rightarrow>
                     if cl1 ! 0 \<noteq> ISO14443A_CT
                     then (Inr (Some (take 4 cl1, sak1)), self1\<lparr>uart := w4\<rparr>)
                     else
                       let uid = drop 1 (take 4 cl1) in
                       (case anticoll_cl2 w4 of
                          (Inl e, w5) \<Rightarrow> (Inl e, self1\<lparr>uart := w5\<rparr>)
                        | (Inr None, w5) \<Rightarrow> (Inr None, self1\<lparr>uart := w5\<rparr>)
                        | (Inr (Some cl2), w5) \<Rightarrow>
                           (case select_cl2 cl2 w5 of
                              (Inl e, w6) \<Rightarrow> (Inl e, self1\<lparr>uart := w6\<rparr>)
                            | (Inr None, w6) \<Rightarrow> (Inr None, self1\<lparr>uart := w6\<rparr>)
                            | (Inr (Some sak2), w6) \<Rightarrow>
                                (Inr (Some (uid @ take 4 cl2, sak2)),
                                 self1\<lparr>uart := w6\<rparr>)))))))"

text \<open>\<open>field_off\<close>: the protocol command with \<open>PROTO_OFF\<close>, then one response read.\<close>

definition field_off :: "cr95hf \<Rightarrow> (error + unit) \<times> cr95hf" where
  "field_off self =
     (case send_cmd CMD_PROTOCOL [PROTO_OFF, 0x00] (uart self) of
        (Inl e, w1) \<Rightarrow> (Inl e, self\<lparr>uart := w1\<rparr>)
      | (Inr _, w1) \<Rightarrow>
         (case read_response 50 w1 of
            (Inl e, w2) \<Rightarrow> (Inl e, self\<lparr>uart := w2\<rparr>)
          | (Inr _, w2) \<Rightarrow> (Inr (), self\<lparr>uart := w2\<rparr>)))"


text \<open>
  The first two statements of \<open>read_tag\<close> taken together: WUPA, then REQA when WUPA
  gave no ATQA. Used to state what follows once an ATQA is there.
\<close>

definition request_atqa :: "uart_world \<Rightarrow> (error + (byte \<times> byte) option) \<times> uart_world" where
  "request_atqa w =
     (case reqa_wupa ISO14443A_WUPA w of
        (Inl e, w1) \<Rightarrow> (Inl e, w1)
      | (Inr atqa, w1) \<Rightarrow>
          if atqa = None then reqa_wupa ISO14443A_REQA w1 else (Inr atqa, w1))"

subsection \<open>The identity string as the specification words it\<close>



text \<open>\<open>extends xs ys\<close>: the log \<open>ys\<close> is the log \<open>xs\<close> with frames added.\<close>

definition extends :: "'a list \<Rightarrow> 'a list \<Rightarrow> bool" where
  "extends xs ys = (\<exists>fs. ys = xs @ fs)"

subsection \<open>Concrete channels\<close>

text \<open>
  A channel between two exchanges: nothing buffered, nothing on the line, a clock that
  takes a millisecond per reading. On the channels of this section every float comparison
  at an elapsed time equal to its limit is that of equal floats (\<open>Exact\<close>); nothing
  stated below about these channels depends on it. \<open>cut k w\<close> is \<open>w\<close> with a chip that answers \<open>k\<close>
  commands and is silent afterwards; \<open>mute\<close> never answers.
\<close>

definition chan :: "nat \<Rightarrow> (nat \<times> byte list) list list \<Rightarrow> byte list list \<Rightarrow> uart_world" where
  "chan t sc fs = \<lparr>now = t, lag = 999, rx = [], line = [], script = sc, tx = fs,
                  edge = (\<lambda>_ _. Exact)\<rparr>"

definition fresh :: "uart_world \<Rightarrow> cr95hf" where
  "fresh u = \<lparr>uart = u, device_name = [], last_atqa = [0, 0]\<rparr>"

definition cut :: "nat \<Rightarrow> uart_world \<Rightarrow> uart_world" where
  "cut k w = w\<lparr>script := take k (script w)\<rparr>"

definition mute :: uart_world where
  "mute = chan 0 [] []"

text \<open>
  A tag with a seven-byte UID: ATQA \<open>44 00\<close>, level 1 \<open>88 11 22 33 AA\<close> with the SAK
  given, level 2 \<open>44 55 66 77 BB\<close> with SAK \<open>00\<close>; some frames arrive in pieces.
  \<open>tag7\<close> has the level-1 SAK \<open>20\<close>.
\<close>

definition tag7_sak :: "byte \<Rightarrow> uart_world" where
  "tag7_sak sak1 = chan 0
     [[(300, [0x80, 0x02]), (700, [0x44, 0x00])],
      [(400, [0x80, 0x05, 0x88, 0x11]), (1200, [0x22, 0x33, 0xAA])],
      [(500, [0x80, 0x01, sak1])],
      [(400, [0x80, 0x05, 0x44, 0x55, 0x66, 0x77, 0xBB])],
      [(500, [0x80]), (2500, [0x01, 0x00])]] []"

definition tag7 :: uart_world where
  "tag7 = tag7_sak 0x20"

text \<open>
  A tag with a four-byte UID that answers REQA only: ATQA \<open>04 00\<close>, level 1
  \<open>01 02 03 04 06\<close> (followed by three status bytes of the chip) with the SAK given.
  \<open>tag4\<close> has the SAK \<open>08\<close>.
\<close>

definition tag4_sak :: "byte \<Rightarrow> uart_world" where
  "tag4_sak sak = chan 0
     [[(300, [0x87, 0x00])],
      [(300, [0x80, 0x02, 0x04]), (900, [0x00])],
      [(400, [0x80, 0x08, 0x01, 0x02, 0x03]), (1100, [0x04, 0x06, 0x28, 0x00, 0x00])],
      [(500, [0x80, 0x01, sak])]] []"

definition tag4 :: uart_world where
  "tag4 = tag4_sak 0x08"

text \<open>
  \<open>no_tag\<close>: the chip reports no answer from the field (\<open>87 00\<close>) to WUPA and to REQA.
  \<open>half_tag\<close>: the tag of \<open>tag7\<close> leaves the field after the level-1 select.
  \<open>zero_tag\<close>: the level-1 anticollision frame holds five null bytes.
\<close>

definition no_tag :: uart_world where
  "no_tag = chan 0 [[(300, [0x87, 0x00])], [(300, [0x87, 0x00])]] []"

definition half_tag :: uart_world where
  "half_tag = chan 0
     [[(300, [0x80, 0x02]), (700, [0x44, 0x00])],
      [(400, [0x80, 0x05, 0x88, 0x11]), (1200, [0x22, 0x33, 0xAA])],
      [(500, [0x80, 0x01, 0x24])],
      [(400, [0x87, 0x00])]] []"

definition zero_tag :: uart_world where
  "zero_tag = chan 0
     [[(300, [0x80, 0x02]), (700, [0x44, 0x00])],
      [(400, [0x80, 0x05, 0x00, 0x00, 0x00, 0x00, 0x00])],
      [(500, [0x80, 0x01, 0x08])]] []"

text \<open>A chip that answers the field-off command with the result code given.\<close>

definition chip_off :: "byte \<Rightarrow> uart_world" where
  "chip_off code = chan 0 [[(400, [code, 0x00])]] []"

text \<open>
  A chip before bring-up: one stale byte in the receive buffer, no answer to the wake-up
  burst, then the answers of \<open>sc\<close>. \<open>chip\<close> answers the echo, the identification
  command (\<open>NFC FS2JAST4\<close>, a null byte, two more bytes) and the protocol selection.
  \<open>long_chip\<close> identifies itself with the fifteen letters of \<open>long_payload\<close>,
  \<open>short_chip\<close> with three letters, \<open>bad_chip\<close> with the result code \<open>82\<close>.
\<close>

definition asleep :: "(nat \<times> byte list) list list \<Rightarrow> uart_world" where
  "asleep sc = \<lparr>now = 0, lag = 999, rx = [0x00], line = [], script = [] # sc, tx = [],
                 edge = (\<lambda>_ _. Exact)\<rparr>"

definition chip :: uart_world where
  "chip = asleep
     [[(100, [0x55])],
      [(200, [0x00, 0x0F, 0x4E, 0x46, 0x43, 0x20, 0x46, 0x53]),
       (900, [0x32, 0x4A, 0x41, 0x53, 0x54, 0x34, 0x00, 0xCE, 0x7B])],
      [(150, [0x00, 0x00])]]"





text \<open>
  Five channels for \<open>_read_response(50)\<close>. On \<open>framed\<close> a frame with three payload
  bytes (and one byte of the next frame) comes in four pieces before the deadline. The
  other four have a clock that takes seven milliseconds per reading, so that no reading
  falls on the deadline. On \<open>quiet\<close> nothing comes in time; on \<open>one_byte\<close> the result
  code only; on \<open>short_frame\<close> two payload bytes out of five. On \<open>late_frame\<close> the
  second of two payload bytes comes three milliseconds after the deadline.
\<close>

definition framed :: uart_world where
  "framed = \<lparr>now = 5000, lag = 999, rx = [0x80],
     line = [(5200, [0x03, 0xAA]), (30000, [0xBB]), (54000, [0xCC, 0x99]), (70000, [0x11])],
     script = [], tx = [], edge = (\<lambda>_ _. Exact)\<rparr>"

definition quiet :: uart_world where
  "quiet = \<lparr>now = 0, lag = 6999, rx = [], line = [(61000, [0x80, 0x00])],
     script = [], tx = [], edge = (\<lambda>_ _. Exact)\<rparr>"

definition one_byte :: uart_world where
  "one_byte = \<lparr>now = 0, lag = 6999, rx = [],
     line = [(20000, [0x80]), (90000, [0x02, 0x04, 0x00])],
     script = [], tx = [], edge = (\<lambda>_ _. Exact)\<rparr>"

definition short_frame :: uart_world where
  "short_frame = \<lparr>now = 0, lag = 6999, rx = [0x80, 0x05],
     line = [(12000, [0x01]), (33000, [0x02]), (75000, [0x03, 0x04, 0x06])],
     script = [], tx = [], edge = (\<lambda>_ _. Exact)\<rparr>"

definition late_frame :: uart_world where
  "late_frame = \<lparr>now = 0, lag = 6999, rx = [],
     line = [(20000, [0x80, 0x02, 0xAA]), (53000, [0xBB])],
     script = [], tx = [], edge = (\<lambda>_ _. Exact)\<rparr>"

subsection \<open>Running the model on a concrete channel\<close>

lemmas run_simps =
  consts_defs deliver_def due_def in_waiting_def uart_read_def uart_write_def monotonic_def
  sleep_def flush_rx.simps send_cmd_def wait_byte.simps read_data.simps read_response_def
  echo_wait.simps echo_test_def wake_loop.simps wake_up_def sendrecv_def
  reqa_wupa_def anticoll_cl1_def select_cl1_def anticoll_cl2_def select_cl2_def
  request_atqa_def elapsed_gt_def elapsed_lt_def chan_def fresh_def Let_def

subsection \<open>Facts about the receive loops\<close>

lemma takeWhile_mono_split:
  "(\<And>x. P x \<Longrightarrow> Q x) \<Longrightarrow> takeWhile Q xs = takeWhile P xs @ takeWhile Q (dropWhile P xs)"
  by (induction xs) auto

lemma takeWhile_dropWhile_stronger:
  "(\<And>x. P x \<Longrightarrow> Q x) \<Longrightarrow> takeWhile P (dropWhile Q xs) = []"
  by (induction xs) auto

lemma due_mono: "t \<le> t' \<Longrightarrow> due t c \<Longrightarrow> due t' c"
  by (simp add: due_def)

lemma concat_takeWhile_dropWhile:
  "concat (map f (takeWhile P xs)) @ concat (map f (dropWhile P xs)) = concat (map f xs)"
  by (induction xs) auto

lemma stream_deliver [simp]: "stream (deliver w) = stream w"
  by (simp add: stream_def deliver_def concat_takeWhile_dropWhile)

lemma stream_arrived:
  "stream w = arrived w t @ concat (map snd (dropWhile (due t) (line w)))"
  by (simp add: stream_def arrived_def concat_takeWhile_dropWhile)

lemma arrived_take: "arrived w t = take (avail w t) (stream w)"
  by (subst stream_arrived [of w t]) (simp add: avail_def)

lemma avail_le_stream: "avail w t \<le> length (stream w)"
  by (subst stream_arrived [of w t]) (simp add: avail_def)

lemma avail_mono: "t \<le> t' \<Longrightarrow> avail w t \<le> avail w t'"
proof -
  assume le: "t \<le> t'"
  have "takeWhile (due t') (line w) =
        takeWhile (due t) (line w) @ takeWhile (due t') (dropWhile (due t) (line w))"
    by (rule takeWhile_mono_split) (rule due_mono [OF le])
  then show ?thesis
    by (simp add: avail_def arrived_def)
qed

lemma rx_deliver: "rx (deliver w) = arrived w (now w)"
  by (simp add: deliver_def arrived_def)

lemma length_rx_deliver: "length (rx (deliver w)) = avail w (now w)"
  by (simp add: rx_deliver avail_def)

lemma avail_deliver_le: "now w \<le> t \<Longrightarrow> avail (deliver w) t = avail w t"
proof -
  assume le: "now w \<le> t"
  have "takeWhile (due t) (line w) =
        takeWhile (due (now w)) (line w) @ takeWhile (due t) (dropWhile (due (now w)) (line w))"
    by (rule takeWhile_mono_split) (rule due_mono [OF le])
  then show ?thesis
    by (simp add: avail_def arrived_def deliver_def)
qed

lemma avail_deliver_ge: "t \<le> now w \<Longrightarrow> avail (deliver w) t = avail w (now w)"
proof -
  assume le: "t \<le> now w"
  have "takeWhile (due t) (dropWhile (due (now w)) (line w)) = []"
    by (rule takeWhile_dropWhile_stronger) (rule due_mono [OF le])
  then show ?thesis
    by (simp add: avail_def arrived_def deliver_def)
qed

lemma avail_deliver: "avail (deliver w) t = max (avail w t) (avail w (now w))"
proof (cases "now w \<le> t")
  case True
  then show ?thesis
    using avail_mono [OF True, of w] by (simp add: avail_deliver_le max_def)
next
  case False
  then have le: "t \<le> now w" by simp
  then show ?thesis
    using avail_mono [OF le, of w] by (simp add: avail_deliver_ge max_def)
qed

lemma tick_simps [simp]:
  "now (tick w) = now w + Suc (lag w)" "lag (tick w) = lag w" "rx (tick w) = rx w"
  "line (tick w) = line w" "tx (tick w) = tx w" "script (tick w) = script w"
  "stream (tick w) = stream w" "avail (tick w) t = avail w t"
  by (simp_all add: tick_def stream_def avail_def arrived_def)

lemma deliver_fields [simp]:
  "now (deliver w) = now w" "lag (deliver w) = lag w" "tx (deliver w) = tx w"
  "script (deliver w) = script w"
  by (simp_all add: deliver_def)

lemma elapsed_gt_same [simp]:
  "elapsed_gt (tick w) = elapsed_gt w" "elapsed_gt (deliver w) = elapsed_gt w"
  "elapsed_gt (consume m w) = elapsed_gt w"
  by (simp_all add: elapsed_gt_def fun_eq_iff tick_def deliver_def consume_def)

lemma elapsed_gt_late: "elapsed_gt w t start limit \<Longrightarrow> start + limit \<le> t"
  by (auto simp: elapsed_gt_def)

lemma elapsed_gt_early: "\<not> elapsed_gt w t start limit \<Longrightarrow> t \<le> start + limit"
  by (auto simp: elapsed_gt_def)


lemma monotonic_tick: "monotonic w = (now w, tick w)"
  by (simp add: monotonic_def tick_def)

lemma deliver_tick_idem [simp]: "deliver (deliver w) = deliver w"
  by (rule deliver_idem)

lemma consume_fields [simp]:
  "now (consume m w) = now w" "lag (consume m w) = lag w" "tx (consume m w) = tx w"
  "script (consume m w) = script w" "rx (consume m w) = drop m (rx w)"
  "line (consume m w) = line w"
  by (simp_all add: consume_def)

lemma stream_consume: "m \<le> length (rx w) \<Longrightarrow> stream (consume m w) = drop m (stream w)"
  by (simp add: stream_def)

lemma avail_consume: "m \<le> length (rx w) \<Longrightarrow> avail (consume m w) t = avail w t - m"
  by (simp add: avail_def arrived_def)

lemma deliver_consume_deliver [simp]: "deliver (consume m (deliver w)) = consume m (deliver w)"
  by (simp add: deliver_def consume_def)

lemma uart_read_consume:
  "uart_read m w =
     (if take m (rx (deliver w)) = [] then None else Some (take m (rx (deliver w))),
      consume m (deliver w))"
  by (simp add: uart_read_def consume_def Let_def)

lemma wait_byte_unfold:
  "wait_byte start timeout_us w =
     (if rx (deliver w) = [] then
        (if elapsed_gt w (now w) start timeout_us then (False, tick (deliver w))
         else wait_byte start timeout_us (tick (deliver w)))
      else (True, deliver w))"
  by (subst wait_byte.simps) (simp add: in_waiting_def monotonic_tick)

lemma wait_byte_induct:
  assumes "\<And>start timeout_us w.
     (rx (deliver w) = [] \<Longrightarrow> \<not> elapsed_gt w (now w) start timeout_us \<Longrightarrow>
        P start timeout_us (tick (deliver w))) \<Longrightarrow> P start timeout_us w"
  shows "P start timeout_us w"
proof (induction start timeout_us w rule: wait_byte.induct)
  case (1 start timeout_us w)
  show ?case
  proof (rule assms)
    assume "rx (deliver w) = []" and "\<not> elapsed_gt w (now w) start timeout_us"
    then show "P start timeout_us (tick (deliver w))"
      using 1 [of 0 "deliver w" "now w" "tick (deliver w)"]
      by (simp add: in_waiting_def monotonic_tick)
  qed
qed

lemma min_pos: "xs \<noteq> [] \<Longrightarrow> n < len \<Longrightarrow> take (min (length xs) (len - n)) xs \<noteq> []"
  by (cases xs) auto

lemma read_data_unfold:
  "read_data start timeout_us len data w =
     (if length data < len then
        (if rx (deliver w) \<noteq> [] then
           read_data start timeout_us len
             (data @ take (min (length (rx (deliver w))) (len - length data)) (rx (deliver w)))
             (consume (min (length (rx (deliver w))) (len - length data)) (deliver w))
         else if elapsed_gt w (now w) start timeout_us
         then (Inl (TimeoutError (DataWait (length data) len)), tick (deliver w))
         else read_data start timeout_us len data (tick (deliver w)))
      else (Inr data, w))"
proof (cases "length data < len \<and> rx (deliver w) \<noteq> []")
  case True
  then have ne: "take (min (length (rx (deliver w))) (len - length data)) (rx (deliver w)) \<noteq> []"
    by (simp add: min_pos)
  from True show ?thesis
    by (subst read_data.simps)
       (simp add: in_waiting_def monotonic_tick uart_read_consume ne del: take_eq_Nil)
next
  case False
  then show ?thesis
    by (subst read_data.simps) (auto simp: in_waiting_def monotonic_tick uart_read_consume)
qed

lemma read_data_induct:
  assumes "\<And>start timeout_us len data w.
     (length data < len \<Longrightarrow> rx (deliver w) \<noteq> [] \<Longrightarrow>
        P start timeout_us len
          (data @ take (min (length (rx (deliver w))) (len - length data)) (rx (deliver w)))
          (consume (min (length (rx (deliver w))) (len - length data)) (deliver w))) \<Longrightarrow>
     (length data < len \<Longrightarrow> rx (deliver w) = [] \<Longrightarrow>
        \<not> elapsed_gt w (now w) start timeout_us \<Longrightarrow>
        P start timeout_us len data (tick (deliver w))) \<Longrightarrow>
     P start timeout_us len data w"
  shows "P start timeout_us len data w"
proof (induction start timeout_us len data w rule: read_data.induct)
  case (1 start timeout_us len data w)
  show ?case
  proof (rule assms)
    assume a: "length data < len" "rx (deliver w) \<noteq> []"
    then have ne: "take (min (length (rx (deliver w))) (len - length data)) (rx (deliver w)) \<noteq> []"
      by (simp add: min_pos)
    show "P start timeout_us len
          (data @ take (min (length (rx (deliver w))) (len - length data)) (rx (deliver w)))
          (consume (min (length (rx (deliver w))) (len - length data)) (deliver w))"
      by (rule 1(1) [of "length (rx (deliver w))" "deliver w"
            "Some (take (min (length (rx (deliver w))) (len - length data)) (rx (deliver w)))"])
         (use a in \<open>simp_all add: in_waiting_def uart_read_consume ne del: take_eq_Nil\<close>)
  next
    assume a: "length data < len" "rx (deliver w) = []"
      "\<not> elapsed_gt w (now w) start timeout_us"
    show "P start timeout_us len data (tick (deliver w))"
      by (rule 1(2) [of 0 "deliver w" "now w"])
         (use a in \<open>simp_all add: in_waiting_def monotonic_tick\<close>)
  qed
qed


lemma rx_prefix_stream: "stream w = rx w @ concat (map snd (line w))"
  by (simp add: stream_def)

lemma take_rx_stream: "m \<le> length (rx w) \<Longrightarrow> take m (rx w) = take m (stream w)"
  by (simp add: stream_def)

lemma wait_byte_sound:
  "wait_byte start timeout_us w = (b, w') \<Longrightarrow>
     stream w' = stream w \<and> lag w' = lag w \<and> tx w' = tx w \<and> script w' = script w \<and>
     (b \<longrightarrow> rx w' \<noteq> [] \<and> deliver w' = w') \<and>
     (\<not> b \<longrightarrow> rx w' = [] \<and> start + timeout_us + Suc (lag w) \<le> now w')"
proof (induction start timeout_us w arbitrary: b w' rule: wait_byte_induct)
  case (1 start timeout_us w)
  show ?case
  proof (cases "rx (deliver w) = []")
    case False
    with 1(2) show ?thesis
      by (subst (asm) wait_byte_unfold) auto
  next
    case True
    show ?thesis
    proof (cases "elapsed_gt w (now w) start timeout_us")
      case late: True
      with True 1(2) elapsed_gt_late [OF late] show ?thesis
        by (subst (asm) wait_byte_unfold) auto
    next
      case False
      with True 1(2) have "wait_byte start timeout_us (tick (deliver w)) = (b, w')"
        by (subst (asm) wait_byte_unfold) simp
      from 1(1) [OF True False this] show ?thesis
        by simp
    qed
  qed
qed

lemma late_rx: "t \<le> now w \<Longrightarrow> rx (deliver w) = [] \<Longrightarrow> avail w t = 0"
  using avail_mono [of t "now w" w] by (simp add: length_rx_deliver [symmetric])

lemma wait_byte_ok:
  "1 \<le> avail w (start + timeout_us) \<Longrightarrow>
     \<exists>w'. wait_byte start timeout_us w = (True, w') \<and>
          avail w (start + timeout_us) \<le> avail w' (start + timeout_us)"
proof (induction start timeout_us w rule: wait_byte_induct)
  case (1 start timeout_us w)
  show ?case
  proof (cases "rx (deliver w) = []")
    case False
    then show ?thesis
      by (subst wait_byte_unfold) (simp add: avail_deliver)
  next
    case True
    have early: "\<not> elapsed_gt w (now w) start timeout_us"
    proof
      assume "elapsed_gt w (now w) start timeout_us"
      then have "start + timeout_us \<le> now w" by (rule elapsed_gt_late)
      from late_rx [OF this True] 1(2) show False by simp
    qed
    from 1(2) have "1 \<le> avail (tick (deliver w)) (start + timeout_us)"
      by (simp add: avail_deliver)
    from 1(1) [OF True early this] obtain w' where
      w': "wait_byte start timeout_us (tick (deliver w)) = (True, w')"
          "avail (tick (deliver w)) (start + timeout_us) \<le> avail w' (start + timeout_us)"
      by blast
    from w' True early show ?thesis
      by (subst wait_byte_unfold) (simp add: avail_deliver)
  qed
qed

lemma wait_byte_window:
  "wait_byte start timeout_us w = (b, w') \<Longrightarrow> now w \<le> start + timeout_us + Suc (lag w) \<Longrightarrow>
     avail w' (start + timeout_us + Suc (lag w)) = avail w (start + timeout_us + Suc (lag w)) \<and>
     (b \<longrightarrow> now w' \<le> start + timeout_us + Suc (lag w))"
proof (induction start timeout_us w arbitrary: b w' rule: wait_byte_induct)
  case (1 start timeout_us w)
  show ?case
  proof (cases "rx (deliver w) = []")
    case False
    with 1(2,3) show ?thesis
      by (subst (asm) wait_byte_unfold) (auto simp: avail_deliver_le)
  next
    case True
    show ?thesis
    proof (cases "elapsed_gt w (now w) start timeout_us")
      case late: True
      with True 1(2,3) show ?thesis
        by (subst (asm) wait_byte_unfold) (auto simp: avail_deliver_le)
    next
      case False
      with True 1(2) have run: "wait_byte start timeout_us (tick (deliver w)) = (b, w')"
        by (subst (asm) wait_byte_unfold) simp
      from elapsed_gt_early [OF False]
      have "now (tick (deliver w)) \<le> start + timeout_us + Suc (lag (tick (deliver w)))"
        by simp
      from 1(1) [OF True False run this] 1(3) show ?thesis
        by (simp add: avail_deliver_le)
    qed
  qed
qed

lemma wait_byte_starved:
  "avail w (start + timeout_us + Suc (lag w)) = 0 \<Longrightarrow> now w \<le> start + timeout_us + Suc (lag w) \<Longrightarrow>
     fst (wait_byte start timeout_us w) = False"
proof (induction start timeout_us w rule: wait_byte_induct)
  case (1 start timeout_us w)
  from 1(2,3) have empty: "rx (deliver w) = []"
    using avail_mono [of "now w" "start + timeout_us + Suc (lag w)" w]
    by (simp add: length_rx_deliver [symmetric])
  show ?case
  proof (cases "elapsed_gt w (now w) start timeout_us")
    case True
    with empty show ?thesis
      by (subst wait_byte_unfold) simp
  next
    case False
    from elapsed_gt_early [OF False]
    have "now (tick (deliver w)) \<le> start + timeout_us + Suc (lag (tick (deliver w)))"
      by simp
    moreover from 1(2,3) have "avail (tick (deliver w)) (start + timeout_us + Suc (lag (tick (deliver w)))) = 0"
      by (simp add: avail_deliver_le)
    ultimately have "fst (wait_byte start timeout_us (tick (deliver w))) = False"
      using 1(1) [OF empty False] by blast
    with empty False show ?thesis
      by (subst wait_byte_unfold) simp
  qed
qed


lemma take_min_rx:
  "take (min (length (rx w)) k) (rx w) = take (min (length (rx w)) k) (stream w)"
  by (simp add: stream_def)

lemma read_data_sound:
  "read_data start timeout_us len data w = (r, w') \<Longrightarrow> length data \<le> len \<Longrightarrow>
     lag w' = lag w \<and> tx w' = tx w \<and> script w' = script w \<and>
     (\<exists>got. stream w = got @ stream w' \<and>
        (case r of
           Inr d \<Rightarrow> d = data @ got \<and> length d = len
         | Inl e \<Rightarrow> e = TimeoutError (DataWait (length (data @ got)) len) \<and>
                    length (data @ got) < len \<and> rx w' = [] \<and>
                    start + timeout_us + Suc (lag w) \<le> now w'))"
proof (induction start timeout_us len data w arbitrary: r w' rule: read_data_induct)
  case (1 start timeout_us len data w)
  show ?case
  proof (cases "length data < len")
    case False
    with 1(3,4) show ?thesis
      by (subst (asm) read_data_unfold) auto
  next
    case more: True
    show ?thesis
    proof (cases "rx (deliver w) = []")
      case False
      define m where "m = min (length (rx (deliver w))) (len - length data)"
      have m: "m \<le> length (rx (deliver w))" "m \<le> len - length data"
        by (simp_all add: m_def)
      from more False 1(3)
      have run: "read_data start timeout_us len (data @ take m (rx (deliver w)))
                   (consume m (deliver w)) = (r, w')"
        by (subst (asm) read_data_unfold) (simp add: m_def)
      have len': "length (data @ take m (rx (deliver w))) \<le> len"
        using m more by simp
      from 1(1) [OF more False run [unfolded m_def] len' [unfolded m_def]]
      obtain got where
        f: "lag w' = lag w" "tx w' = tx w" "script w' = script w"
        and s: "stream (consume m (deliver w)) = got @ stream w'"
        and c: "case r of
             Inr d \<Rightarrow> d = (data @ take m (rx (deliver w))) @ got \<and> length d = len
           | Inl e \<Rightarrow>
               e = TimeoutError (DataWait (length ((data @ take m (rx (deliver w))) @ got)) len) \<and>
               length ((data @ take m (rx (deliver w))) @ got) < len \<and> rx w' = [] \<and>
               start + timeout_us + Suc (lag (consume m (deliver w))) \<le> now w'"
        unfolding m_def [symmetric] by auto
      have tk: "take m (rx (deliver w)) = take m (stream w)"
        using take_rx_stream [OF m(1)] by simp
      from s m(1) have "stream w = (take m (stream w)) @ got @ stream w'"
        by (simp add: stream_consume) (metis append_take_drop_id)
      then have "stream w = (take m (rx (deliver w)) @ got) @ stream w'"
        by (simp add: tk)
      moreover from c have "case r of
             Inr d \<Rightarrow> d = data @ (take m (rx (deliver w)) @ got) \<and> length d = len
           | Inl e \<Rightarrow>
               e = TimeoutError (DataWait (length (data @ (take m (rx (deliver w)) @ got))) len) \<and>
               length (data @ (take m (rx (deliver w)) @ got)) < len \<and> rx w' = [] \<and>
               start + timeout_us + Suc (lag w) \<le> now w'"
        by (simp split: sum.splits)
      ultimately show ?thesis
        using f by blast
    next
      case True
      show ?thesis
      proof (cases "elapsed_gt w (now w) start timeout_us")
        case late: True
        with more True 1(3) have "r = Inl (TimeoutError (DataWait (length data) len))"
          and "w' = tick (deliver w)"
          by (subst (asm) read_data_unfold; simp)+
        with more elapsed_gt_late [OF late] True show ?thesis
          by (auto intro!: exI [of _ "[]"])
      next
        case False
        with more True 1(3) have run: "read_data start timeout_us len data (tick (deliver w)) = (r, w')"
          by (subst (asm) read_data_unfold) simp
        from 1(2) [OF more True False run 1(4)] show ?thesis
          by (cases r) auto
      qed
    qed
  qed
qed


lemma read_data_ok:
  "len \<le> length data + avail w (start + timeout_us) \<Longrightarrow> length data \<le> len \<Longrightarrow>
     \<exists>w'. read_data start timeout_us len data w =
            (Inr (data @ take (len - length data) (stream w)), w')"
proof (induction start timeout_us len data w rule: read_data_induct)
  case (1 start timeout_us len data w)
  show ?case
  proof (cases "length data < len")
    case False
    with 1(4) show ?thesis
      by (subst read_data_unfold) simp
  next
    case more: True
    show ?thesis
    proof (cases "rx (deliver w) = []")
      case False
      define m where "m = min (length (rx (deliver w))) (len - length data)"
      have m: "m \<le> length (rx (deliver w))" "m \<le> len - length data"
        by (simp_all add: m_def)
      have "avail w (start + timeout_us) \<le> avail (deliver w) (start + timeout_us)"
        by (simp add: avail_deliver)
      with 1(3) m more
      have enough: "len \<le> length (data @ take m (rx (deliver w))) +
                      avail (consume m (deliver w)) (start + timeout_us)"
        by (simp add: avail_consume)
      have len': "length (data @ take m (rx (deliver w))) \<le> len"
        using m more by simp
      from 1(1) [OF more False enough [unfolded m_def] len' [unfolded m_def]]
      obtain w' where
        "read_data start timeout_us len (data @ take m (rx (deliver w))) (consume m (deliver w)) =
           (Inr ((data @ take m (rx (deliver w))) @
                 take (len - length (data @ take m (rx (deliver w))))
                   (stream (consume m (deliver w)))), w')"
        unfolding m_def [symmetric] by blast
      moreover have "take m (rx (deliver w)) = take m (stream w)"
        using take_rx_stream [OF m(1)] by simp
      moreover have "stream (consume m (deliver w)) = drop m (stream w)"
        using m(1) by (simp add: stream_consume)
      moreover have "take m (stream w) @ take (len - (length data + m)) (drop m (stream w)) =
                     take (len - length data) (stream w)"
        using m(2) by (metis add_diff_cancel_left' diff_diff_left le_add_diff_inverse take_add)
      moreover have "length (take m (stream w)) = m"
        using m(1) \<open>take m (rx (deliver w)) = take m (stream w)\<close>
        by (metis length_take min.absorb2)
      ultimately have "read_data start timeout_us len (data @ take m (rx (deliver w)))
             (consume m (deliver w)) = (Inr (data @ take (len - length data) (stream w)), w')"
        by simp
      with more False show ?thesis
        by (subst read_data_unfold) (simp add: m_def)
    next
      case True
      have early: "\<not> elapsed_gt w (now w) start timeout_us"
      proof
        assume "elapsed_gt w (now w) start timeout_us"
        then have "start + timeout_us \<le> now w" by (rule elapsed_gt_late)
        from late_rx [OF this True] 1(3) more show False by simp
      qed
      from 1(3) have "len \<le> length data + avail (tick (deliver w)) (start + timeout_us)"
        using avail_deliver [of w "start + timeout_us"] by simp
      from 1(2) [OF more True early this 1(4)] True early more show ?thesis
        by (subst read_data_unfold) simp
    qed
  qed
qed

lemma read_data_starved:
  "length data + avail w (start + timeout_us + Suc (lag w)) < len \<Longrightarrow>
   avail w (start + timeout_us) = avail w (start + timeout_us + Suc (lag w)) \<Longrightarrow>
   now w \<le> start + timeout_us + Suc (lag w) \<Longrightarrow>
     fst (read_data start timeout_us len data w) =
       Inl (TimeoutError (DataWait (length data + avail w (start + timeout_us)) len))"
proof (induction start timeout_us len data w rule: read_data_induct)
  case (1 start timeout_us len data w)
  let ?D = "start + timeout_us" and ?T = "start + timeout_us + Suc (lag w)"
  from 1(3) have more: "length data < len" by simp
  have k: "avail w (now w) \<le> avail w ?T"
    using 1(5) by (rule avail_mono)
  have aT: "avail (deliver w) ?T = avail w ?T"
    using 1(5) by (rule avail_deliver_le)
  have aD: "avail (deliver w) ?D = avail w ?D"
    using k 1(4) avail_deliver [of w ?D] by (auto simp: max_def)
  show ?case
  proof (cases "rx (deliver w) = []")
    case False
    define m where "m = min (length (rx (deliver w))) (len - length data)"
    have "length (rx (deliver w)) = avail w (now w)"
      by (rule length_rx_deliver)
    with k 1(3) have m: "m = length (rx (deliver w))" and mle: "m \<le> avail w ?T"
      by (simp_all add: m_def)
    have mm: "m \<le> length (rx (deliver w))"
      by (simp add: m)
    have T': "start + timeout_us + Suc (lag (consume m (deliver w))) = ?T"
      by simp
    have c1: "avail (consume m (deliver w)) ?T = avail w ?T - m"
      by (simp only: avail_consume [OF mm] aT)
    have c2: "avail (consume m (deliver w)) ?D = avail w ?D - m"
      by (simp only: avail_consume [OF mm] aD)
    have l: "length (data @ take m (rx (deliver w))) = length data + m"
      by (simp add: m)
    have a1: "length (data @ take m (rx (deliver w))) +
              avail (consume m (deliver w)) (start + timeout_us + Suc (lag (consume m (deliver w)))) < len"
    proof -
      have "length data + m + (avail w ?T - m) < len"
        using 1(3) mle by arith
      then show ?thesis
        by (simp only: T' c1 l)
    qed
    have a2: "avail (consume m (deliver w)) (start + timeout_us) =
              avail (consume m (deliver w)) (start + timeout_us + Suc (lag (consume m (deliver w))))"
      using 1(4) by (simp only: T' c1 c2)
    have a3: "now (consume m (deliver w)) \<le> start + timeout_us + Suc (lag (consume m (deliver w)))"
      using 1(5) by (simp only: T' consume_fields deliver_fields)
    from 1(1) [OF more False a1 [unfolded m_def] a2 [unfolded m_def] a3 [unfolded m_def]]
    have "fst (read_data start timeout_us len (data @ take m (rx (deliver w))) (consume m (deliver w))) =
      Inl (TimeoutError (DataWait (length (data @ take m (rx (deliver w))) +
             avail (consume m (deliver w)) (start + timeout_us)) len))"
      unfolding m_def [symmetric] .
    moreover have "length (data @ take m (rx (deliver w))) + avail (consume m (deliver w)) ?D =
                   length data + avail w ?D"
    proof -
      have "length data + m + (avail w ?D - m) = length data + avail w ?D"
        using mle 1(4) by arith
      then show ?thesis
        by (simp only: c2 l)
    qed
    ultimately have "fst (read_data start timeout_us len (data @ take m (rx (deliver w)))
                       (consume m (deliver w))) =
      Inl (TimeoutError (DataWait (length data + avail w ?D) len))"
      by (simp only:)
    with more False show ?thesis
      by (subst read_data_unfold) (simp only: m_def if_True if_False not_False_eq_True)
  next
    case True
    then have z: "avail w (now w) = 0"
      by (simp add: length_rx_deliver [symmetric])
    show ?thesis
    proof (cases "elapsed_gt w (now w) start timeout_us")
      case late: True
      then have "?D \<le> now w" by (rule elapsed_gt_late)
      from avail_mono [OF this, of w] z have "avail w ?D = 0" by simp
      with more True late show ?thesis
        by (subst read_data_unfold) simp
    next
      case False
      have T': "start + timeout_us + Suc (lag (tick (deliver w))) = ?T"
        by simp
      have t1: "avail (tick (deliver w)) ?T = avail w ?T"
        by (simp only: tick_simps aT)
      have t2: "avail (tick (deliver w)) ?D = avail w ?D"
        by (simp only: tick_simps aD)
      have a1: "length data + avail (tick (deliver w)) (start + timeout_us + Suc (lag (tick (deliver w)))) < len"
        using 1(3) by (simp only: T' t1)
      have a2: "avail (tick (deliver w)) (start + timeout_us) =
                avail (tick (deliver w)) (start + timeout_us + Suc (lag (tick (deliver w))))"
        using 1(4) by (simp only: T' t1 t2)
      have a3: "now (tick (deliver w)) \<le> start + timeout_us + Suc (lag (tick (deliver w)))"
        using elapsed_gt_early [OF False] by simp
      from 1(2) [OF more True False a1 a2 a3]
      have "fst (read_data start timeout_us len data (tick (deliver w))) =
              Inl (TimeoutError (DataWait (length data + avail w ?D) len))"
        by (simp only: t2)
      with more True False show ?thesis
        by (subst read_data_unfold) simp
    qed
  qed
qed


lemma read_after_wait:
  assumes "wait_byte start timeout_us w = (True, w1)"
  shows "uart_read 1 w1 = (Some [hd (stream w)], consume 1 w1) \<and>
         stream w = hd (stream w) # stream (consume 1 w1) \<and>
         lag (consume 1 w1) = lag w \<and> tx (consume 1 w1) = tx w \<and>
         script (consume 1 w1) = script w \<and> now (consume 1 w1) = now w1 \<and>
         (\<forall>t. avail (consume 1 w1) t = avail w1 t - 1)"
proof -
  from wait_byte_sound [OF assms]
  have s: "stream w1 = stream w" "lag w1 = lag w" "tx w1 = tx w" "script w1 = script w"
    and ne: "rx w1 \<noteq> []" and d: "deliver w1 = w1"
    by simp_all
  from ne obtain b bs where rx: "rx w1 = b # bs"
    by (cases "rx w1") auto
  then have "stream w1 = b # bs @ concat (map snd (line w1))"
    by (simp add: stream_def)
  then have hd: "hd (stream w) = b"
    using s(1) by simp
  have one: "1 \<le> length (rx w1)"
    using rx by simp
  have "uart_read 1 w1 = (Some [b], consume 1 w1)"
    by (simp add: uart_read_consume d rx)
  moreover have "stream w = b # stream (consume 1 w1)"
    using s(1) rx by (simp add: stream_def)
  moreover have "\<forall>t. avail (consume 1 w1) t = avail w1 t - 1"
    using avail_consume [OF one] by simp
  ultimately show ?thesis
    using s hd by simp
qed

lemma recv_byte_ok:
  assumes "1 \<le> avail w (start + timeout_us)"
  shows "\<exists>w1. wait_byte start timeout_us w = (True, w1) \<and>
           uart_read 1 w1 = (Some [hd (stream w)], consume 1 w1) \<and>
           stream w = hd (stream w) # stream (consume 1 w1) \<and>
           lag (consume 1 w1) = lag w \<and>
           avail w (start + timeout_us) - 1 \<le> avail (consume 1 w1) (start + timeout_us) \<and>
           (now w \<le> start + timeout_us + Suc (lag w) \<longrightarrow>
              now (consume 1 w1) \<le> start + timeout_us + Suc (lag w) \<and>
              avail (consume 1 w1) (start + timeout_us + Suc (lag w)) =
                avail w (start + timeout_us + Suc (lag w)) - 1)"
proof -
  from wait_byte_ok [OF assms] obtain w1 where
    w1: "wait_byte start timeout_us w = (True, w1)"
    and a: "avail w (start + timeout_us) \<le> avail w1 (start + timeout_us)"
    by blast
  note r = read_after_wait [OF w1]
  have "now w \<le> start + timeout_us + Suc (lag w) \<longrightarrow>
              now (consume 1 w1) \<le> start + timeout_us + Suc (lag w) \<and>
              avail (consume 1 w1) (start + timeout_us + Suc (lag w)) =
                avail w (start + timeout_us + Suc (lag w)) - 1"
    using wait_byte_window [OF w1] r by simp
  moreover have "avail w (start + timeout_us) - 1 \<le> avail (consume 1 w1) (start + timeout_us)"
    using a r by simp
  ultimately show ?thesis
    using w1 r by blast
qed

lemma stream_of_arrived:
  "arrived w t = xs \<Longrightarrow> \<exists>r. stream w = xs @ r"
  by (subst stream_arrived [of w t]) simp

lemma read_response_unfold:
  "read_response timeout_ms w =
     (case wait_byte (now w) (timeout_ms * 1000) (tick w) of
        (False, w1) \<Rightarrow> (Inl (TimeoutError ResultCodeWait), w1)
      | (True, w1) \<Rightarrow>
         (case uart_read 1 w1 of
            (None, w2) \<Rightarrow> (Inl TypeError, w2)
          | (Some r, w2) \<Rightarrow>
             (case wait_byte (now w) (timeout_ms * 1000) w2 of
                (False, w3) \<Rightarrow> (Inl (TimeoutError LengthByteWait), w3)
              | (True, w3) \<Rightarrow>
                 (case uart_read 1 w3 of
                    (None, w4) \<Rightarrow> (Inl TypeError, w4)
                  | (Some l, w4) \<Rightarrow>
                     (case read_data (now w) (timeout_ms * 1000) (unat (hd l)) [] w4 of
                        (Inl e, w5) \<Rightarrow> (Inl e, w5)
                      | (Inr data, w5) \<Rightarrow> (Inr (hd r, data), w5))))))"
  unfolding read_response_def Let_def monotonic_tick by simp

lemma read_response_frame_lemma:
  assumes "arrived w (now w + timeout_ms * 1000) = c # n # payload @ rest"
    and "length payload = unat n"
  shows "fst (read_response timeout_ms w) = Inr (c, payload)"
proof -
  let ?D = "now w + timeout_ms * 1000"
  from stream_of_arrived [OF assms(1)] obtain r where st: "stream w = c # n # payload @ rest @ r"
    by auto
  have av: "avail w ?D = 2 + unat n + length rest"
    using assms by (simp add: avail_def)
  have "1 \<le> avail (tick w) ?D"
    using av by simp
  from recv_byte_ok [OF this] obtain w1 where
    w1: "wait_byte (now w) (timeout_ms * 1000) (tick w) = (True, w1)"
    and r1: "uart_read 1 w1 = (Some [hd (stream (tick w))], consume 1 w1)"
    and s1: "stream (tick w) = hd (stream (tick w)) # stream (consume 1 w1)"
    and a1: "avail (tick w) ?D - 1 \<le> avail (consume 1 w1) ?D"
    by blast
  from s1 st have s1': "stream (consume 1 w1) = n # payload @ rest @ r"
    and h1: "hd (stream (tick w)) = c"
    by simp_all
  have "1 \<le> avail (consume 1 w1) ?D"
    using a1 av by simp
  from recv_byte_ok [OF this] obtain w3 where
    w3: "wait_byte (now w) (timeout_ms * 1000) (consume 1 w1) = (True, w3)"
    and r3: "uart_read 1 w3 = (Some [hd (stream (consume 1 w1))], consume 1 w3)"
    and s3: "stream (consume 1 w1) = hd (stream (consume 1 w1)) # stream (consume 1 w3)"
    and a3: "avail (consume 1 w1) ?D - 1 \<le> avail (consume 1 w3) ?D"
    by blast
  from s3 s1' have s3': "stream (consume 1 w3) = payload @ rest @ r"
    and h3: "hd (stream (consume 1 w1)) = n"
    by simp_all
  have "unat n \<le> length ([] :: byte list) + avail (consume 1 w3) ?D"
    using a3 a1 av by simp
  from read_data_ok [OF this] obtain w5 where
    "read_data (now w) (timeout_ms * 1000) (unat n) [] (consume 1 w3) =
       (Inr ([] @ take (unat n - length ([] :: byte list)) (stream (consume 1 w3))), w5)"
    by auto
  then have d: "read_data (now w) (timeout_ms * 1000) (unat n) [] (consume 1 w3) =
       (Inr payload, w5)"
    using s3' assms(2) by simp
  show ?thesis
    by (simp only: read_response_unfold w1 r1 h1 w3 r3 h3 d
          prod.case bool.case option.case sum.case list.sel fst_conv)
qed


lemma read_response_sound:
  assumes "read_response timeout_ms w = (r, w')"
  shows "lag w' = lag w \<and> tx w' = tx w \<and> script w' = script w \<and>
     (case r of
        Inr (c, data) \<Rightarrow> \<exists>n. stream w = c # n # data @ stream w' \<and> length data = unat n
      | Inl e \<Rightarrow>
          rx w' = [] \<and> now w + timeout_ms * 1000 + Suc (lag w) \<le> now w' \<and>
          (e = TimeoutError ResultCodeWait \<and> stream w = stream w' \<or>
           e = TimeoutError LengthByteWait \<and> (\<exists>c. stream w = c # stream w') \<or>
           (\<exists>c n got. e = TimeoutError (DataWait (length got) (unat n)) \<and>
              stream w = c # n # got @ stream w' \<and> length got < unat n)))"
proof -
  let ?s = "now w" and ?t = "timeout_ms * 1000"
  obtain b1 w1 where w1: "wait_byte ?s ?t (tick w) = (b1, w1)"
    by (cases "wait_byte ?s ?t (tick w)")
  note s1 = wait_byte_sound [OF w1]
  show ?thesis
  proof (cases b1)
    case False
    with assms w1 have "r = Inl (TimeoutError ResultCodeWait)" "w' = w1"
      by (simp_all add: read_response_unfold)
    with s1 False show ?thesis
      by simp
  next
    case True
    with w1 have w1t: "wait_byte ?s ?t (tick w) = (True, w1)"
      by simp
    note r1 = read_after_wait [OF w1t]
    obtain b2 w3 where w3: "wait_byte ?s ?t (consume 1 w1) = (b2, w3)"
      by (cases "wait_byte ?s ?t (consume 1 w1)")
    note s3 = wait_byte_sound [OF w3]
    from r1 have rd1: "uart_read 1 w1 = (Some [hd (stream (tick w))], consume 1 w1)"
      by simp
    from r1 have st1: "stream w = hd (stream w) # stream (consume 1 w1)"
      by simp
    show ?thesis
    proof (cases b2)
      case False
      with assms w1 True w3 rd1 have "r = Inl (TimeoutError LengthByteWait)" "w' = w3"
        by (simp_all only: read_response_unfold prod.case bool.case option.case sum.case
              list.sel prod.inject)
      with s3 False r1 st1 show ?thesis
        by (auto simp del: tick_simps(7))
    next
      case b2: True
      with w3 have w3t: "wait_byte ?s ?t (consume 1 w1) = (True, w3)"
        by simp
      note r3 = read_after_wait [OF w3t]
      from r3 have rd3: "uart_read 1 w3 = (Some [hd (stream (consume 1 w1))], consume 1 w3)"
        by simp
      from r3 have st3: "stream (consume 1 w1) = hd (stream (consume 1 w1)) # stream (consume 1 w3)"
        by simp
      let ?n = "hd (stream (consume 1 w1))"
      obtain r5 w5 where w5: "read_data ?s ?t (unat ?n) [] (consume 1 w3) = (r5, w5)"
        by (cases "read_data ?s ?t (unat ?n) [] (consume 1 w3)")
      from read_data_sound [OF w5] obtain got where
        f5: "lag w5 = lag (consume 1 w3)" "tx w5 = tx (consume 1 w3)"
            "script w5 = script (consume 1 w3)"
        and g5: "stream (consume 1 w3) = got @ stream w5"
        and c5: "case r5 of
             Inr d \<Rightarrow> d = [] @ got \<and> length d = unat ?n
           | Inl e \<Rightarrow> e = TimeoutError (DataWait (length ([] @ got)) (unat ?n)) \<and>
                      length ([] @ got) < unat ?n \<and> rx w5 = [] \<and>
                      ?s + ?t + Suc (lag (consume 1 w3)) \<le> now w5"
        by auto
      have whole: "stream w = hd (stream w) # ?n # got @ stream w5"
        using st1 st3 g5 by simp
      have lags: "lag w5 = lag w" "tx w5 = tx w" "script w5 = script w"
        using f5 r3 r1 by simp_all
      show ?thesis
      proof (cases r5)
        case (Inl e)
        with assms w1 True w3 b2 rd1 rd3 w5 have "r = Inl e" "w' = w5"
          by (simp_all only: read_response_unfold prod.case bool.case option.case sum.case
                list.sel prod.inject)
        moreover from c5 Inl r3 r1 have "e = TimeoutError (DataWait (length got) (unat ?n))"
          "length got < unat ?n" "rx w5 = []" "?s + ?t + Suc (lag w) \<le> now w5"
          by simp_all
        ultimately show ?thesis
          using whole lags by (auto simp del: tick_simps(7))
      next
        case (Inr d)
        with assms w1 True w3 b2 rd1 rd3 w5 have "r = Inr (hd (stream (tick w)), d)" "w' = w5"
          by (simp_all only: read_response_unfold prod.case bool.case option.case sum.case
                list.sel prod.inject)
        moreover from c5 Inr have "d = got" "length d = unat ?n"
          by auto
        ultimately show ?thesis
          using whole lags by auto
      qed
    qed
  qed
qed


lemma arrived_tick [simp]: "arrived (tick w) t = arrived w t"
  by (simp add: arrived_def tick_def)

lemma read_response_no_byte:
  assumes "arrived w (now w + timeout_ms * 1000 + Suc (lag w)) = []"
  shows "fst (read_response timeout_ms w) = Inl (TimeoutError ResultCodeWait)"
proof -
  have "avail (tick w) (now w + timeout_ms * 1000 + Suc (lag (tick w))) = 0"
    using assms by (simp add: avail_def)
  moreover have "now (tick w) \<le> now w + timeout_ms * 1000 + Suc (lag (tick w))"
    by simp
  ultimately have "fst (wait_byte (now w) (timeout_ms * 1000) (tick w)) = False"
    by (rule wait_byte_starved)
  then show ?thesis
    by (cases "wait_byte (now w) (timeout_ms * 1000) (tick w)")
       (simp add: read_response_unfold)
qed

lemma read_response_one_byte:
  assumes "arrived w (now w + timeout_ms * 1000) = [c]"
    and "arrived w (now w + timeout_ms * 1000 + Suc (lag w)) = [c]"
  shows "fst (read_response timeout_ms w) = Inl (TimeoutError LengthByteWait)"
proof -
  let ?s = "now w" and ?t = "timeout_ms * 1000"
  let ?T = "?s + ?t + Suc (lag w)"
  have aD: "avail (tick w) (?s + ?t) = 1" and aT: "avail (tick w) ?T = 1"
    using assms by (simp_all add: avail_def)
  have nT: "now (tick w) \<le> ?s + ?t + Suc (lag (tick w))"
    by simp
  have "1 \<le> avail (tick w) (?s + ?t)"
    using aD by simp
  from recv_byte_ok [OF this] nT aT obtain w1 where
    w1: "wait_byte ?s ?t (tick w) = (True, w1)"
    and r1: "uart_read 1 w1 = (Some [hd (stream (tick w))], consume 1 w1)"
    and l1: "lag (consume 1 w1) = lag w"
    and n1: "now (consume 1 w1) \<le> ?T"
    and a1: "avail (consume 1 w1) ?T = 0"
    by auto
  have "avail (consume 1 w1) (?s + ?t + Suc (lag (consume 1 w1))) = 0"
    using a1 l1 by simp
  moreover have "now (consume 1 w1) \<le> ?s + ?t + Suc (lag (consume 1 w1))"
    using n1 l1 by simp
  ultimately have "fst (wait_byte ?s ?t (consume 1 w1)) = False"
    by (rule wait_byte_starved)
  then obtain w3 where w3: "wait_byte ?s ?t (consume 1 w1) = (False, w3)"
    by (cases "wait_byte ?s ?t (consume 1 w1)") auto
  show ?thesis
    by (simp only: read_response_unfold w1 r1 w3 prod.case bool.case option.case fst_conv)
qed

lemma read_response_short:
  assumes "arrived w (now w + timeout_ms * 1000) = c # n # got"
    and "arrived w (now w + timeout_ms * 1000 + Suc (lag w)) = c # n # got"
    and "length got < unat n"
  shows "fst (read_response timeout_ms w) =
           Inl (TimeoutError (DataWait (length got) (unat n)))"
proof -
  let ?s = "now w" and ?t = "timeout_ms * 1000"
  let ?D = "?s + ?t" and ?T = "?s + ?t + Suc (lag w)"
  from stream_of_arrived [OF assms(1)] obtain r where st: "stream w = c # n # got @ r"
    by auto
  have aD: "avail (tick w) ?D = 2 + length got" and aT: "avail (tick w) ?T = 2 + length got"
    using assms by (simp_all add: avail_def)
  have nT: "now (tick w) \<le> ?s + ?t + Suc (lag (tick w))"
    by simp
  have "1 \<le> avail (tick w) ?D"
    using aD by simp
  from recv_byte_ok [OF this] nT aT aD obtain w1 where
    w1: "wait_byte ?s ?t (tick w) = (True, w1)"
    and r1: "uart_read 1 w1 = (Some [hd (stream (tick w))], consume 1 w1)"
    and s1: "stream (tick w) = hd (stream (tick w)) # stream (consume 1 w1)"
    and l1: "lag (consume 1 w1) = lag w"
    and d1: "1 + length got \<le> avail (consume 1 w1) ?D"
    and n1: "now (consume 1 w1) \<le> ?T"
    and a1: "avail (consume 1 w1) ?T = 1 + length got"
    by auto
  from s1 st have s1': "stream (consume 1 w1) = n # got @ r"
    by simp
  have "1 \<le> avail (consume 1 w1) ?D"
    using d1 by simp
  from recv_byte_ok [OF this] obtain w3 where
    w3: "wait_byte ?s ?t (consume 1 w1) = (True, w3)"
    and r3: "uart_read 1 w3 = (Some [hd (stream (consume 1 w1))], consume 1 w3)"
    and l3: "lag (consume 1 w3) = lag (consume 1 w1)"
    and d3: "avail (consume 1 w1) ?D - 1 \<le> avail (consume 1 w3) ?D"
    and win: "now (consume 1 w1) \<le> ?s + ?t + Suc (lag (consume 1 w1)) \<longrightarrow>
              now (consume 1 w3) \<le> ?s + ?t + Suc (lag (consume 1 w1)) \<and>
              avail (consume 1 w3) (?s + ?t + Suc (lag (consume 1 w1))) =
                avail (consume 1 w1) (?s + ?t + Suc (lag (consume 1 w1))) - 1"
    by blast
  from win n1 l1 a1 have n3: "now (consume 1 w3) \<le> ?T"
    and a3: "avail (consume 1 w3) ?T = length got"
    by simp_all
  have "avail (consume 1 w3) ?D \<le> avail (consume 1 w3) ?T"
    by (rule avail_mono) simp
  with d3 d1 a3 have d3': "avail (consume 1 w3) ?D = length got"
    by simp
  have h3: "hd (stream (consume 1 w1)) = n"
    using s1' by simp
  have lag3: "lag (consume 1 w3) = lag w"
    using l3 l1 by simp
  have "length ([] :: byte list) + avail (consume 1 w3) (?s + ?t + Suc (lag (consume 1 w3))) < unat n"
    using a3 assms(3) by (simp only: lag3) simp
  moreover have "avail (consume 1 w3) (?s + ?t) =
                 avail (consume 1 w3) (?s + ?t + Suc (lag (consume 1 w3)))"
    using a3 d3' by (simp only: lag3)
  moreover have "now (consume 1 w3) \<le> ?s + ?t + Suc (lag (consume 1 w3))"
    using n3 by (simp only: lag3)
  ultimately have "fst (read_data ?s ?t (unat n) [] (consume 1 w3)) =
       Inl (TimeoutError (DataWait (length ([] :: byte list) + avail (consume 1 w3) (?s + ?t)) (unat n)))"
    by (rule read_data_starved)
  then have "fst (read_data ?s ?t (unat n) [] (consume 1 w3)) =
       Inl (TimeoutError (DataWait (length got) (unat n)))"
    using d3' by simp
  then obtain w5 where w5: "read_data ?s ?t (unat n) [] (consume 1 w3) =
       (Inl (TimeoutError (DataWait (length got) (unat n))), w5)"
    by (cases "read_data ?s ?t (unat n) [] (consume 1 w3)") auto
  show ?thesis
    by (simp only: read_response_unfold w1 r1 w3 r3 h3 w5 prod.case bool.case option.case
          sum.case list.sel fst_conv)
qed

subsection \<open>What \<open>read_tag\<close> does once an ATQA is there\<close>

lemma anticoll_cl1_length: "anticoll_cl1 w = (Inr (Some cl), w') \<Longrightarrow> length cl = 5"
  by (auto simp: anticoll_cl1_def Let_def split: prod.splits sum.splits if_splits)

lemma anticoll_cl2_length: "anticoll_cl2 w = (Inr (Some cl), w') \<Longrightarrow> length cl = 5"
  by (auto simp: anticoll_cl2_def Let_def split: prod.splits sum.splits if_splits)

lemma take4_of_five: "length cl = 5 \<Longrightarrow> take 4 cl = [cl ! 0, cl ! 1, cl ! 2, cl ! 3]"
  by (auto simp: list_eq_iff_nth_eq less_Suc_eq eval_nat_numeral)

lemma mid3_of_five: "length cl = 5 \<Longrightarrow> drop 1 (take 4 cl) = [cl ! 1, cl ! 2, cl ! 3]"
  by (auto simp: list_eq_iff_nth_eq less_Suc_eq eval_nat_numeral)

lemma read_tag_atqa:
  "read_tag self =
     (case request_atqa (uart self) of
        (Inl e, w2) \<Rightarrow> (Inl e, self\<lparr>uart := w2\<rparr>)
      | (Inr None, w2) \<Rightarrow> (Inr None, self\<lparr>uart := w2\<rparr>)
      | (Inr (Some (atqa1, atqa2)), w2) \<Rightarrow>
         (case anticoll_cl1 w2 of
            (Inl e, w3) \<Rightarrow>
              (Inl e, self\<lparr>last_atqa := (last_atqa self)[0 := atqa1, 1 := atqa2], uart := w3\<rparr>)
          | (Inr None, w3) \<Rightarrow>
              (Inr None, self\<lparr>last_atqa := (last_atqa self)[0 := atqa1, 1 := atqa2], uart := w3\<rparr>)
          | (Inr (Some cl1), w3) \<Rightarrow>
             (case select_cl1 cl1 w3 of
                (Inl e, w4) \<Rightarrow>
                  (Inl e, self\<lparr>last_atqa := (last_atqa self)[0 := atqa1, 1 := atqa2], uart := w4\<rparr>)
              | (Inr None, w4) \<Rightarrow>
                  (Inr None,
                   self\<lparr>last_atqa := (last_atqa self)[0 := atqa1, 1 := atqa2], uart := w4\<rparr>)
              | (Inr (Some sak1), w4) \<Rightarrow>
                 if cl1 ! 0 \<noteq> ISO14443A_CT
                 then (Inr (Some (take 4 cl1, sak1)),
                       self\<lparr>last_atqa := (last_atqa self)[0 := atqa1, 1 := atqa2], uart := w4\<rparr>)
                 else
                   (case anticoll_cl2 w4 of
                      (Inl e, w5) \<Rightarrow>
                        (Inl e,
                         self\<lparr>last_atqa := (last_atqa self)[0 := atqa1, 1 := atqa2], uart := w5\<rparr>)
                    | (Inr None, w5) \<Rightarrow>
                        (Inr None,
                         self\<lparr>last_atqa := (last_atqa self)[0 := atqa1, 1 := atqa2], uart := w5\<rparr>)
                    | (Inr (Some cl2), w5) \<Rightarrow>
                       (case select_cl2 cl2 w5 of
                          (Inl e, w6) \<Rightarrow>
                            (Inl e,
                             self\<lparr>last_atqa := (last_atqa self)[0 := atqa1, 1 := atqa2],
                                  uart := w6\<rparr>)
                        | (Inr None, w6) \<Rightarrow>
                            (Inr None,
                             self\<lparr>last_atqa := (last_atqa self)[0 := atqa1, 1 := atqa2],
                                  uart := w6\<rparr>)
                        | (Inr (Some sak2), w6) \<Rightarrow>
                            (Inr (Some (drop 1 (take 4 cl1) @ take 4 cl2, sak2)),
                             self\<lparr>last_atqa := (last_atqa self)[0 := atqa1, 1 := atqa2],
                                  uart := w6\<rparr>))))))"
  by (simp add: read_tag_def request_atqa_def Let_def split: prod.splits sum.splits option.splits)

subsection \<open>Frames written and errors passed on\<close>

lemma flush_rx_fields:
  "now (flush_rx w) = now w \<and> lag (flush_rx w) = lag w \<and> tx (flush_rx w) = tx w \<and>
   script (flush_rx w) = script w"
proof (induction w rule: flush_rx.induct)
  case (1 w)
  show ?case
  proof (cases "rx (deliver w) = []")
    case True
    then show ?thesis
      by (subst (1 2 3 4) flush_rx.simps) (simp add: in_waiting_def)
  next
    case False
    let ?w3 = "consume (length (rx (deliver w))) (deliver w)"
    have "flush_rx w = flush_rx ?w3"
      using False by (subst flush_rx.simps) (simp add: in_waiting_def uart_read_consume)
    moreover have "now (flush_rx ?w3) = now ?w3 \<and> lag (flush_rx ?w3) = lag ?w3 \<and>
        tx (flush_rx ?w3) = tx ?w3 \<and> script (flush_rx ?w3) = script ?w3"
      by (rule 1 [of "length (rx (deliver w))" "deliver w" "length (rx (deliver w))" "deliver w"
            "fst (uart_read (length (rx (deliver w))) (deliver w))"])
         (use False in \<open>simp_all add: in_waiting_def uart_read_consume\<close>)
    ultimately show ?thesis
      by simp
  qed
qed

lemma send_cmd_ok:
  "length data \<le> 255 \<Longrightarrow>
     send_cmd cmd data w = (Inr (), uart_write ([cmd, of_nat (length data)] @ data) (flush_rx w))"
  by (simp add: send_cmd_def Let_def)

lemma tx_uart_write: "tx (uart_write buf w) = tx w @ [buf]"
  by (simp add: uart_write_def split: list.splits)

lemma tx_read_response: "tx (snd (read_response timeout_ms w)) = tx w"
  using read_response_sound [of timeout_ms w "fst (read_response timeout_ms w)"
      "snd (read_response timeout_ms w)"]
  by simp

lemma sendrecv_unfold:
  "length rf_data < 255 \<Longrightarrow>
     sendrecv rf_data flags w =
       read_response 50
         (uart_write ([CMD_SENDRECV, of_nat (Suc (length rf_data))] @ rf_data @ [flags])
            (flush_rx w))"
  by (simp add: sendrecv_def Let_def send_cmd_ok)

lemma tx_sendrecv:
  "length rf_data < 255 \<Longrightarrow> sendrecv rf_data flags w = (r, w') \<Longrightarrow>
     tx w' = tx w @ [[CMD_SENDRECV, of_nat (Suc (length rf_data))] @ rf_data @ [flags]]"
  using tx_read_response
    [of 50 "uart_write ([CMD_SENDRECV, of_nat (Suc (length rf_data))] @ rf_data @ [flags])
            (flush_rx w)"]
  by (simp add: sendrecv_unfold tx_uart_write flush_rx_fields)

lemma sendrecv_error:
  "length rf_data < 255 \<Longrightarrow> sendrecv rf_data flags w = (Inl e, w') \<Longrightarrow>
     \<exists>t. e = TimeoutError t"
  by (auto simp: sendrecv_unfold dest!: read_response_sound)

lemma tx_reqa_wupa:
  "reqa_wupa cmd w = (r, w') \<Longrightarrow> tx w' = tx w @ [[0x04, 0x02, cmd, 0x07]]"
  by (auto simp: reqa_wupa_def consts_defs split: prod.splits sum.splits if_splits
        dest!: tx_sendrecv [rotated])

lemma tx_anticoll_cl1:
  "anticoll_cl1 w = (r, w') \<Longrightarrow> tx w' = tx w @ [[0x04, 0x03, 0x93, 0x20, 0x08]]"
  by (auto simp: anticoll_cl1_def Let_def consts_defs split: prod.splits sum.splits if_splits
        dest!: tx_sendrecv [rotated])

lemma tx_anticoll_cl2:
  "anticoll_cl2 w = (r, w') \<Longrightarrow> tx w' = tx w @ [[0x04, 0x03, 0x95, 0x20, 0x08]]"
  by (auto simp: anticoll_cl2_def Let_def consts_defs split: prod.splits sum.splits if_splits
        dest!: tx_sendrecv [rotated])

lemma tx_select_cl1:
  "length uid_bcc = 5 \<Longrightarrow> select_cl1 uid_bcc w = (r, w') \<Longrightarrow>
     tx w' = tx w @ [[0x04, 0x08, 0x93, 0x70] @ uid_bcc @ [0x28]]"
  by (auto simp: select_cl1_def Let_def consts_defs split: prod.splits sum.splits if_splits
        dest!: tx_sendrecv [rotated])

lemma tx_select_cl2:
  "length uid_bcc = 5 \<Longrightarrow> select_cl2 uid_bcc w = (r, w') \<Longrightarrow>
     tx w' = tx w @ [[0x04, 0x08, 0x95, 0x70] @ uid_bcc @ [0x28]]"
  by (auto simp: select_cl2_def Let_def consts_defs split: prod.splits sum.splits if_splits
        dest!: tx_sendrecv [rotated])


lemma reqa_wupa_error:
  "reqa_wupa cmd w = (Inl e, w') \<longleftrightarrow> sendrecv [cmd] FLAG_SHORTFRAME w = (Inl e, w')"
  by (auto simp: reqa_wupa_def split: prod.splits sum.splits if_splits)

lemma anticoll_cl1_error:
  "anticoll_cl1 w = (Inl e, w') \<longleftrightarrow>
     sendrecv [ISO14443A_SEL_CL1, ISO14443A_NVB_ANTICOLL] FLAG_STD w = (Inl e, w')"
  by (auto simp: anticoll_cl1_def Let_def split: prod.splits sum.splits if_splits)

lemma select_cl1_error:
  "select_cl1 uid_bcc w = (Inl e, w') \<longleftrightarrow>
     sendrecv ([ISO14443A_SEL_CL1, ISO14443A_NVB_SELECT] @ uid_bcc) FLAG_STD_CRC w = (Inl e, w')"
  by (auto simp: select_cl1_def Let_def split: prod.splits sum.splits if_splits)

lemma anticoll_cl2_error:
  "anticoll_cl2 w = (Inl e, w') \<longleftrightarrow>
     sendrecv [ISO14443A_SEL_CL2, ISO14443A_NVB_ANTICOLL] FLAG_STD w = (Inl e, w')"
  by (auto simp: anticoll_cl2_def Let_def split: prod.splits sum.splits if_splits)

lemma select_cl2_error:
  "select_cl2 uid_bcc w = (Inl e, w') \<longleftrightarrow>
     sendrecv ([ISO14443A_SEL_CL2, ISO14443A_NVB_SELECT] @ uid_bcc) FLAG_STD_CRC w = (Inl e, w')"
  by (auto simp: select_cl2_def Let_def split: prod.splits sum.splits if_splits)

lemma request_atqa_wupa_error:
  "reqa_wupa ISO14443A_WUPA w = (Inl e, w1) \<Longrightarrow> request_atqa w = (Inl e, w1)"
  by (simp add: request_atqa_def)

lemma request_atqa_reqa:
  "reqa_wupa ISO14443A_WUPA w = (Inr None, w1) \<Longrightarrow> request_atqa w = reqa_wupa ISO14443A_REQA w1"
  by (simp add: request_atqa_def)

lemma request_atqa_wupa:
  "reqa_wupa ISO14443A_WUPA w = (Inr (Some a), w1) \<Longrightarrow> request_atqa w = (Inr (Some a), w1)"
  by (simp add: request_atqa_def)

lemma extends_refl [simp]: "extends xs xs"
  by (simp add: extends_def)

lemma extends_trans: "extends xs ys \<Longrightarrow> extends ys zs \<Longrightarrow> extends xs zs"
  by (auto simp: extends_def)

lemma extends_append [simp]: "extends xs (xs @ fs)"
  by (auto simp: extends_def)

lemma tx_sendrecv_ext: "sendrecv rf_data flags w = (r, w') \<Longrightarrow> extends (tx w) (tx w')"
proof (cases "length rf_data < 255")
  case True
  assume "sendrecv rf_data flags w = (r, w')"
  from tx_sendrecv [OF True this] show ?thesis
    by simp
next
  case False
  assume "sendrecv rf_data flags w = (r, w')"
  with False show ?thesis
    by (auto simp: sendrecv_def send_cmd_def Let_def)
qed

lemma select_cl1_ext: "select_cl1 uid_bcc w = (r, w') \<Longrightarrow> extends (tx w) (tx w')"
  by (auto simp: select_cl1_def Let_def split: prod.splits sum.splits if_splits
        dest: tx_sendrecv_ext)

lemma select_cl2_ext: "select_cl2 uid_bcc w = (r, w') \<Longrightarrow> extends (tx w) (tx w')"
  by (auto simp: select_cl2_def Let_def split: prod.splits sum.splits if_splits
        dest: tx_sendrecv_ext)

lemma anticoll_cl2_ext: "anticoll_cl2 w = (r, w') \<Longrightarrow> extends (tx w) (tx w')"
  using tx_anticoll_cl2 [of w r w'] by auto

lemma read_tag_after_cl1:
  assumes a: "request_atqa (uart self) = (Inr (Some (atqa1, atqa2)), w2)"
    and c: "anticoll_cl1 w2 = (r3, w3)"
  shows "extends (tx w3) (tx (uart (snd (read_tag self))))"
proof (cases r3)
  case (Inl e)
  with a c show ?thesis
    by (simp add: read_tag_atqa)
next
  case (Inr o3)
  show ?thesis
  proof (cases o3)
    case None
    with Inr a c show ?thesis
      by (simp add: read_tag_atqa)
  next
    case (Some cl1)
    obtain r4 w4 where s1: "select_cl1 cl1 w3 = (r4, w4)"
      by (cases "select_cl1 cl1 w3")
    note e4 = select_cl1_ext [OF s1]
    have stop: "extends (tx w3) (tx (uart (snd (read_tag self))))"
      if "uart (snd (read_tag self)) = w4"
      using that e4 by simp
    show ?thesis
    proof (cases "\<exists>sak1. r4 = Inr (Some sak1) \<and> cl1 ! 0 = ISO14443A_CT")
      case False
      with a c Inr Some s1 have "uart (snd (read_tag self)) = w4"
        by (cases r4) (auto simp: read_tag_atqa split: option.splits)
      then show ?thesis
        by (rule stop)
    next
      case True
      then obtain sak1 where r4: "r4 = Inr (Some sak1)" and ct: "cl1 ! 0 = ISO14443A_CT"
        by blast
      obtain r5 w5 where c2: "anticoll_cl2 w4 = (r5, w5)"
        by (cases "anticoll_cl2 w4")
      note e5 = extends_trans [OF e4 anticoll_cl2_ext [OF c2]]
      show ?thesis
      proof (cases "\<exists>cl2. r5 = Inr (Some cl2)")
        case False
        with a c Inr Some s1 r4 ct c2 have "uart (snd (read_tag self)) = w5"
          by (cases r5) (auto simp: read_tag_atqa split: option.splits)
        with e5 show ?thesis
          by simp
      next
        case True
        then obtain cl2 where r5: "r5 = Inr (Some cl2)"
          by blast
        obtain r6 w6 where s2: "select_cl2 cl2 w5 = (r6, w6)"
          by (cases "select_cl2 cl2 w5")
        from a c Inr Some s1 r4 ct c2 r5 s2 have "uart (snd (read_tag self)) = w6"
          by (cases r6) (auto simp: read_tag_atqa split: option.splits)
        with extends_trans [OF e5 select_cl2_ext [OF s2]] show ?thesis
          by simp
      qed
    qed
  qed
qed

lemma read_tag_after_atqa:
  assumes a: "request_atqa (uart self) = (r, w2)"
  shows "extends (tx w2) (tx (uart (snd (read_tag self))))"
proof (cases "\<exists>atqa1 atqa2. r = Inr (Some (atqa1, atqa2))")
  case False
  with a have "uart (snd (read_tag self)) = w2"
    by (cases r) (auto simp: read_tag_atqa split: option.splits)
  then show ?thesis
    by simp
next
  case True
  then obtain atqa1 atqa2 where r: "r = Inr (Some (atqa1, atqa2))"
    by blast
  obtain r3 w3 where c: "anticoll_cl1 w2 = (r3, w3)"
    by (cases "anticoll_cl1 w2")
  have "extends (tx w2) (tx w3)"
    using tx_anticoll_cl1 [OF c] by simp
  with read_tag_after_cl1 [OF a [unfolded r] c] show ?thesis
    by (blast intro: extends_trans)
qed

lemma read_tag_uid_length:
  assumes "read_tag self = (Inr (Some (uid, sak)), self')"
  shows "length uid = 4 \<or> length uid = 7"
proof -
  have l4: "anticoll_cl1 w = (Inr (Some cl), w') \<Longrightarrow> length (take 4 cl) = 4" for w cl w'
    by (drule anticoll_cl1_length) simp
  have l7: "anticoll_cl1 w = (Inr (Some cl), w') \<Longrightarrow> anticoll_cl2 v = (Inr (Some cl'), v') \<Longrightarrow>
      length (drop 1 (take 4 cl) @ take 4 cl') = 7" for w cl w' v cl' v'
    by (drule anticoll_cl1_length, drule anticoll_cl2_length) simp
  from assms show ?thesis
    by (auto simp: read_tag_atqa split: prod.splits sum.splits option.splits if_splits
          dest: l4 l7)
qed

subsection \<open>The identity string and a silent chip\<close>




lemma flush_rx_silent: "line w = [] \<Longrightarrow> rx (flush_rx w) = [] \<and> line (flush_rx w) = []"
proof (induction w rule: flush_rx.induct)
  case (1 w)
  show ?case
  proof (cases "rx (deliver w) = []")
    case True
    with 1(2) show ?thesis
      by (subst (1 2) flush_rx.simps) (simp add: in_waiting_def deliver_def)
  next
    case False
    let ?w3 = "consume (length (rx (deliver w))) (deliver w)"
    have "flush_rx w = flush_rx ?w3"
      using False by (subst flush_rx.simps) (simp add: in_waiting_def uart_read_consume)
    moreover have "rx (flush_rx ?w3) = [] \<and> line (flush_rx ?w3) = []"
      by (rule 1(1) [of "length (rx (deliver w))" "deliver w" "length (rx (deliver w))" "deliver w"
            "fst (uart_read (length (rx (deliver w))) (deliver w))"])
         (use False 1(2) in \<open>simp_all add: in_waiting_def uart_read_consume deliver_def\<close>)
    ultimately show ?thesis
      by simp
  qed
qed

lemma send_cmd_silent:
  assumes "line w = []" and "script w = []" and "length data \<le> 255"
  shows "fst (read_response timeout_ms (snd (send_cmd cmd data w))) =
           Inl (TimeoutError ResultCodeWait)"
proof -
  let ?w1 = "uart_write ([cmd, of_nat (length data)] @ data) (flush_rx w)"
  have "script (flush_rx w) = []"
    using assms(2) by (simp add: flush_rx_fields)
  then have "arrived ?w1 t = []" for t
    using flush_rx_silent [OF assms(1)] by (simp add: uart_write_def arrived_def)
  then have "fst (read_response timeout_ms ?w1) = Inl (TimeoutError ResultCodeWait)"
    by (rule read_response_no_byte)
  with assms(3) show ?thesis
    by (simp add: send_cmd_ok)
qed

lemma with_snd: "fst p = a \<Longrightarrow> p = (a, snd p)"
  by auto

lemma sendrecv_chan_silent:
  assumes "length rf_data < 255"
  shows "sendrecv rf_data flags (chan t [] fs) =
           (Inl (TimeoutError ResultCodeWait), snd (sendrecv rf_data flags (chan t [] fs)))"
proof -
  have "fst (sendrecv rf_data flags (chan t [] fs)) = Inl (TimeoutError ResultCodeWait)"
    using send_cmd_silent [of "chan t [] fs" "rf_data @ [flags]" 50 CMD_SENDRECV] assms
    by (simp add: sendrecv_def Let_def send_cmd_ok chan_def)
  then show ?thesis
    by (rule with_snd)
qed

lemma read_response_chan_silent:
  "length data \<le> 255 \<Longrightarrow>
     read_response timeout_ms (snd (send_cmd cmd data (chan t [] fs))) =
       (Inl (TimeoutError ResultCodeWait),
        snd (read_response timeout_ms (snd (send_cmd cmd data (chan t [] fs)))))"
  by (rule with_snd, rule send_cmd_silent) (simp_all add: chan_def)

lemma uart_fresh: "uart (fresh u) = u"
  by (simp add: fresh_def)

lemma read_tag_wupa_raises:
  assumes "sendrecv [ISO14443A_WUPA] FLAG_SHORTFRAME (uart self) = (Inl e, w1)"
  shows "read_tag self = (Inl e, self\<lparr>uart := w1\<rparr>)"
proof -
  from assms have "request_atqa (uart self) = (Inl e, w1)"
    by (simp add: request_atqa_wupa_error reqa_wupa_error)
  then show ?thesis
    by (simp add: read_tag_atqa)
qed

lemma read_tag_reqa_raises:
  assumes "reqa_wupa ISO14443A_WUPA (uart self) = (Inr None, w1)"
    and "sendrecv [ISO14443A_REQA] FLAG_SHORTFRAME w1 = (Inl e, w2)"
  shows "read_tag self = (Inl e, self\<lparr>uart := w2\<rparr>)"
proof -
  from assms have "request_atqa (uart self) = (Inl e, w2)"
    by (simp add: request_atqa_reqa reqa_wupa_error)
  then show ?thesis
    by (simp add: read_tag_atqa)
qed

lemma field_off_unfold:
  "field_off self =
     (case read_response 50 (snd (send_cmd CMD_PROTOCOL [PROTO_OFF, 0x00] (uart self))) of
        (Inl e, w2) \<Rightarrow> (Inl e, self\<lparr>uart := w2\<rparr>)
      | (Inr _, w2) \<Rightarrow> (Inr (), self\<lparr>uart := w2\<rparr>))"
  by (simp add: field_off_def send_cmd_def Let_def)

lemma field_off_raises:
  "read_response 50 (snd (send_cmd CMD_PROTOCOL [PROTO_OFF, 0x00] (uart self))) = (Inl e, w2) \<Longrightarrow>
     field_off self = (Inl e, self\<lparr>uart := w2\<rparr>)"
  by (simp add: field_off_unfold)

lemma tx_chan: "tx (chan t sc fs) = fs"
  by (simp add: chan_def)



subsection \<open>Single exchanges on concrete channels\<close>

lemma asleep_wake_up: "wake_up 2 (asleep sc) = chan 19000 sc [replicate 20 0]"
  by (simp add: asleep_def run_simps)

lemma chan_echo:
  "echo_test (chan 19000 ([(100, [0x55])] # sc) fs) = (Inr (), chan 21000 sc (fs @ [[0x55]]))"
  by (simp add: run_simps)

lemma wupa_answered:
  "reqa_wupa ISO14443A_WUPA (chan 0 ([(300, [0x80, 0x02]), (700, [0x44, 0x00])] # sc) fs) =
     (Inr (Some (0x44, 0x00)), chan 1000 sc (fs @ [[4, 2, 0x52, 7]]))"
  by (simp add: run_simps)

lemma wupa_unanswered:
  "reqa_wupa ISO14443A_WUPA (chan 0 ([(300, [0x87, 0x00])] # sc) fs) =
     (Inr None, chan 1000 sc (fs @ [[4, 2, 0x52, 7]]))"
  by (simp add: run_simps)

lemma reqa_answered:
  "reqa_wupa ISO14443A_REQA (chan 1000 ([(300, [0x80, 0x02, 0x04]), (900, [0x00])] # sc) fs) =
     (Inr (Some (0x04, 0x00)), chan 2000 sc (fs @ [[4, 2, 0x26, 7]]))"
  by (simp add: run_simps)

lemma reqa_unanswered:
  "reqa_wupa ISO14443A_REQA (chan 1000 ([(300, [0x87, 0x00])] # sc) fs) =
     (Inr None, chan 2000 sc (fs @ [[4, 2, 0x26, 7]]))"
  by (simp add: run_simps)

lemma anticoll_cl1_cascade:
  "anticoll_cl1
     (chan 1000 ([(400, [0x80, 0x05, 0x88, 0x11]), (1200, [0x22, 0x33, 0xAA])] # sc) fs) =
     (Inr (Some [0x88, 0x11, 0x22, 0x33, 0xAA]), chan 3000 sc (fs @ [[4, 3, 0x93, 0x20, 8]]))"
  by (simp add: run_simps)

lemma select_cl1_cascade:
  "select_cl1 [0x88, 0x11, 0x22, 0x33, 0xAA] (chan 3000 ([(500, [0x80, 0x01, sak])] # sc) fs) =
     (Inr (Some sak),
      chan 4000 sc (fs @ [[4, 8, 0x93, 0x70, 0x88, 0x11, 0x22, 0x33, 0xAA, 0x28]]))"
  by (simp add: run_simps)

lemma anticoll_cl2_answered:
  "anticoll_cl2 (chan 4000 ([(400, [0x80, 0x05, 0x44, 0x55, 0x66, 0x77, 0xBB])] # sc) fs) =
     (Inr (Some [0x44, 0x55, 0x66, 0x77, 0xBB]), chan 5000 sc (fs @ [[4, 3, 0x95, 0x20, 8]]))"
  by (simp add: run_simps)

lemma anticoll_cl2_unanswered:
  "anticoll_cl2 (chan 4000 ([(400, [0x87, 0x00])] # sc) fs) =
     (Inr None, chan 5000 sc (fs @ [[4, 3, 0x95, 0x20, 8]]))"
  by (simp add: run_simps)

lemma select_cl2_answered:
  "select_cl2 [0x44, 0x55, 0x66, 0x77, 0xBB]
     (chan 5000 ([(500, [0x80]), (2500, [0x01, 0x00])] # sc) fs) =
     (Inr (Some 0x00),
      chan 8000 sc (fs @ [[4, 8, 0x95, 0x70, 0x44, 0x55, 0x66, 0x77, 0xBB, 0x28]]))"
  by (simp add: run_simps)

lemma anticoll_cl1_single:
  "anticoll_cl1
     (chan 2000 ([(400, [0x80, 0x08, 0x01, 0x02, 0x03]),
                  (1100, [0x04, 0x06, 0x28, 0x00, 0x00])] # sc) fs) =
     (Inr (Some [0x01, 0x02, 0x03, 0x04, 0x06]), chan 4000 sc (fs @ [[4, 3, 0x93, 0x20, 8]]))"
  by (simp add: run_simps)

lemma select_cl1_single:
  "select_cl1 [0x01, 0x02, 0x03, 0x04, 0x06] (chan 4000 ([(500, [0x80, 0x01, sak])] # sc) fs) =
     (Inr (Some sak),
      chan 5000 sc (fs @ [[4, 8, 0x93, 0x70, 0x01, 0x02, 0x03, 0x04, 0x06, 0x28]]))"
  by (simp add: run_simps)

lemma anticoll_cl1_zeros:
  "anticoll_cl1 (chan 1000 ([(400, [0x80, 0x05, 0x00, 0x00, 0x00, 0x00, 0x00])] # sc) fs) =
     (Inr (Some [0x00, 0x00, 0x00, 0x00, 0x00]), chan 2000 sc (fs @ [[4, 3, 0x93, 0x20, 8]]))"
  by (simp add: run_simps)

lemma select_cl1_zeros:
  "select_cl1 [0x00, 0x00, 0x00, 0x00, 0x00] (chan 2000 ([(500, [0x80, 0x01, sak])] # sc) fs) =
     (Inr (Some sak),
      chan 3000 sc (fs @ [[4, 8, 0x93, 0x70, 0x00, 0x00, 0x00, 0x00, 0x00, 0x28]]))"
  by (simp add: run_simps)

lemma field_off_answered:
  "read_response 50
     (snd (send_cmd CMD_PROTOCOL [PROTO_OFF, 0x00] (chan 0 ([(400, [code, 0x00])] # sc) fs))) =
     (Inr (code, []), chan 1000 sc (fs @ [[2, 2, 0, 0]]))"
  by (simp add: run_simps)







text \<open>The same exchanges seen from a driver object just created.\<close>

lemma bringup_echo:
  "echo_test (wake_up 2 (uart (fresh (asleep ([(100, [0x55])] # sc))))) =
     (Inr (), chan 21000 sc [replicate 20 0, [0x55]])"
  by (simp add: uart_fresh asleep_wake_up chan_echo)

lemma atqa_answered:
  "request_atqa (uart (fresh (chan 0 ([(300, [0x80, 0x02]), (700, [0x44, 0x00])] # sc) fs))) =
     (Inr (Some (0x44, 0x00)), chan 1000 sc (fs @ [[4, 2, 0x52, 7]]))"
  by (simp add: uart_fresh request_atqa_wupa [OF wupa_answered])

lemma atqa_reqa_answered:
  "request_atqa (uart (fresh (chan 0
      ([(300, [0x87, 0x00])] # [(300, [0x80, 0x02, 0x04]), (900, [0x00])] # sc) fs))) =
     (Inr (Some (0x04, 0x00)), chan 2000 sc ((fs @ [[4, 2, 0x52, 7]]) @ [[4, 2, 0x26, 7]]))"
  by (simp add: uart_fresh request_atqa_reqa [OF wupa_unanswered] reqa_answered)

lemma wupa_fresh_unanswered:
  "reqa_wupa ISO14443A_WUPA (uart (fresh (chan 0 ([(300, [0x87, 0x00])] # sc) fs))) =
     (Inr None, chan 1000 sc (fs @ [[4, 2, 0x52, 7]]))"
  by (simp add: uart_fresh wupa_unanswered)

lemma wupa_fresh_answered:
  "reqa_wupa ISO14443A_WUPA
     (uart (fresh (chan 0 ([(300, [0x80, 0x02]), (700, [0x44, 0x00])] # sc) fs))) =
     (Inr (Some (0x44, 0x00)), chan 1000 sc (fs @ [[4, 2, 0x52, 7]]))"
  by (simp add: uart_fresh wupa_answered)

text \<open>The channels cut short, written out.\<close>

lemma cut_tag7:
  "cut 0 tag7 = chan 0 [] []"
  "cut 1 tag7 = chan 0 [[(300, [0x80, 0x02]), (700, [0x44, 0x00])]] []"
  "cut 2 tag7 = chan 0
     [[(300, [0x80, 0x02]), (700, [0x44, 0x00])],
      [(400, [0x80, 0x05, 0x88, 0x11]), (1200, [0x22, 0x33, 0xAA])]] []"
  "cut 3 tag7 = chan 0
     [[(300, [0x80, 0x02]), (700, [0x44, 0x00])],
      [(400, [0x80, 0x05, 0x88, 0x11]), (1200, [0x22, 0x33, 0xAA])],
      [(500, [0x80, 0x01, 0x20])]] []"
  "cut 4 tag7 = chan 0
     [[(300, [0x80, 0x02]), (700, [0x44, 0x00])],
      [(400, [0x80, 0x05, 0x88, 0x11]), (1200, [0x22, 0x33, 0xAA])],
      [(500, [0x80, 0x01, 0x20])],
      [(400, [0x80, 0x05, 0x44, 0x55, 0x66, 0x77, 0xBB])]] []"
  by (simp_all add: cut_def tag7_def tag7_sak_def chan_def eval_nat_numeral)

lemma cut_tag4: "cut 1 tag4 = chan 0 [[(300, [0x87, 0x00])]] []"
  by (simp add: cut_def tag4_def tag4_sak_def chan_def)

lemma cut_chip: "cut 2 chip = asleep [[(100, [0x55])]]"
  by (simp add: cut_def chip_def asleep_def eval_nat_numeral)


subsection \<open>The errors that leave \<open>_initialize\<close> and \<open>read_tag\<close>\<close>

lemma elapsed_lt_same [simp]:
  "elapsed_lt (tick w) = elapsed_lt w" "elapsed_lt (deliver w) = elapsed_lt w"
  "elapsed_lt (consume m w) = elapsed_lt w"
  by (simp_all add: elapsed_lt_def fun_eq_iff tick_def deliver_def consume_def)

lemma echo_wait_unfold:
  "echo_wait start w =
     (if elapsed_lt w (now w) start 100000 then
        (if rx (deliver (tick w)) \<noteq> [] then
           (if hd (rx (deliver (tick w))) = CMD_ECHO
            then (Inr (), consume 1 (deliver (tick w)))
            else (Inl (OSError (EchoMismatch (hd (rx (deliver (tick w)))))),
                  consume 1 (deliver (tick w))))
         else echo_wait start (deliver (tick w)))
      else (Inl (OSError EchoNoResponse), tick w))"
proof (cases "rx (deliver (tick w))")
  case Nil
  then show ?thesis
    by (subst echo_wait.simps) (simp add: monotonic_tick in_waiting_def)
next
  case (Cons b bs)
  then show ?thesis
    by (subst echo_wait.simps) (simp add: monotonic_tick in_waiting_def uart_read_consume)
qed

lemma echo_wait_error: "echo_wait start w = (Inl e, w') \<Longrightarrow> \<exists>m. e = OSError m"
proof (induction "Suc (start + 100000) - now w" arbitrary: w rule: less_induct)
  case less
  show ?case
  proof (cases "elapsed_lt w (now w) start 100000 \<and> rx (deliver (tick w)) = []")
    case False
    with less(2) show ?thesis
      by (subst (asm) echo_wait_unfold) (auto split: if_splits)
  next
    case True
    then have "now w \<le> start + 100000"
      by (auto simp: elapsed_lt_def)
    then have "Suc (start + 100000) - now (deliver (tick w)) < Suc (start + 100000) - now w"
      by simp
    moreover from True less(2) have "echo_wait start (deliver (tick w)) = (Inl e, w')"
      by (subst (asm) echo_wait_unfold) simp
    ultimately show ?thesis
      by (rule less(1))
  qed
qed

lemma initialize_error:
  assumes "initialize wake_pulse_ms self = (Inl e, self')"
  shows "\<exists>m. e = OSError m"
proof -
  obtain r5 w5 where e5: "echo_test (wake_up wake_pulse_ms (uart self)) = (r5, w5)"
    by (cases "echo_test (wake_up wake_pulse_ms (uart self))")
  show ?thesis
  proof (cases r5)
    case (Inl e0)
    with e5 have "\<exists>m. e0 = OSError m"
      by (auto simp: echo_test_def Let_def monotonic_tick dest: echo_wait_error)
    with Inl e5 assms show ?thesis
      by (auto simp: initialize_def)
  next
    case (Inr u)
    obtain r7 w7 where e7: "read_response 100 (snd (send_cmd CMD_IDN [] w5)) = (r7, w7)"
      by (cases "read_response 100 (snd (send_cmd CMD_IDN [] w5))")
    note s7 = read_response_sound [OF e7]
    show ?thesis
    proof (cases r7)
      case (Inl e0)
      with s7 have "\<exists>t. e0 = TimeoutError t"
        by auto
      with Inl Inr e5 e7 assms show ?thesis
        by (auto simp: initialize_def send_cmd_ok)
    next
      case r: (Inr cd)
      obtain code data where cd: "cd = (code, data)"
        by (cases cd)
      obtain r9 w9 where e9: "read_response 100
          (snd (send_cmd CMD_PROTOCOL [PROTO_ISO14443A, 0x00] w7)) = (r9, w9)"
        by (cases "read_response 100 (snd (send_cmd CMD_PROTOCOL [PROTO_ISO14443A, 0x00] w7))")
      note s9 = read_response_sound [OF e9]
      show ?thesis
      proof (cases r9)
        case (Inl e0)
        with s9 have "\<exists>t. e0 = TimeoutError t"
          by auto
        with Inl r cd Inr e5 e7 e9 assms show ?thesis
          by (auto simp: initialize_def send_cmd_ok Let_def split: if_splits)
      next
        case r9: (Inr cd9)
        with r cd Inr e5 e7 e9 assms show ?thesis
          by (cases cd9) (auto simp: initialize_def send_cmd_ok Let_def split: if_splits)
      qed
    qed
  qed
qed

lemma helper_errors:
  "reqa_wupa c w = (Inl e, w') \<Longrightarrow> \<exists>t. e = TimeoutError t"
  "anticoll_cl1 w = (Inl e, w') \<Longrightarrow> \<exists>t. e = TimeoutError t"
  "anticoll_cl2 w = (Inl e, w') \<Longrightarrow> \<exists>t. e = TimeoutError t"
  "select_cl1 cl w = (Inl e, w') \<Longrightarrow> length cl = 5 \<Longrightarrow> \<exists>t. e = TimeoutError t"
  "select_cl2 cl w = (Inl e, w') \<Longrightarrow> length cl = 5 \<Longrightarrow> \<exists>t. e = TimeoutError t"
  by (auto simp: reqa_wupa_error anticoll_cl1_error anticoll_cl2_error select_cl1_error
        select_cl2_error dest!: sendrecv_error [rotated])

lemma read_tag_error:
  assumes "read_tag self = (Inl e, self')"
  shows "\<exists>t. e = TimeoutError t"
proof -
  obtain r2 w2 where a: "request_atqa (uart self) = (r2, w2)"
    by (cases "request_atqa (uart self)")
  show ?thesis
  proof (cases "\<exists>atqa. r2 = Inr (Some atqa)")
    case False
    with a assms have "request_atqa (uart self) = (Inl e, w2)"
      by (cases r2) (auto simp: read_tag_atqa split: option.splits)
    then show ?thesis
      by (auto simp: request_atqa_def split: prod.splits sum.splits if_splits
            dest: helper_errors(1))
  next
    case True
    then obtain atqa1 atqa2 where r2: "r2 = Inr (Some (atqa1, atqa2))"
      by auto
    obtain r3 w3 where c1: "anticoll_cl1 w2 = (r3, w3)"
      by (cases "anticoll_cl1 w2")
    show ?thesis
    proof (cases "\<exists>cl1. r3 = Inr (Some cl1)")
      case False
      with a r2 c1 assms have "anticoll_cl1 w2 = (Inl e, w3)"
        by (cases r3) (auto simp: read_tag_atqa split: option.splits)
      then show ?thesis
        by (rule helper_errors(2))
    next
      case True
      then obtain cl1 where r3: "r3 = Inr (Some cl1)"
        by auto
      from c1 r3 have l1: "length cl1 = 5"
        by (auto dest: anticoll_cl1_length)
      obtain r4 w4 where s1: "select_cl1 cl1 w3 = (r4, w4)"
        by (cases "select_cl1 cl1 w3")
      show ?thesis
      proof (cases "\<exists>sak1. r4 = Inr (Some sak1)")
        case False
        with a r2 c1 r3 s1 assms have "select_cl1 cl1 w3 = (Inl e, w4)"
          by (cases r4) (auto simp: read_tag_atqa split: option.splits)
        then show ?thesis
          using l1 by (rule helper_errors(4))
      next
        case True
        then obtain sak1 where r4: "r4 = Inr (Some sak1)"
          by auto
        obtain r5 w5 where c2: "anticoll_cl2 w4 = (r5, w5)"
          by (cases "anticoll_cl2 w4")
        show ?thesis
        proof (cases "\<exists>cl2. r5 = Inr (Some cl2)")
          case False
          with a r2 c1 r3 s1 r4 c2 assms have "anticoll_cl2 w4 = (Inl e, w5)"
            by (cases r5) (auto simp: read_tag_atqa split: option.splits if_splits)
          then show ?thesis
            by (rule helper_errors(3))
        next
          case True
          then obtain cl2 where r5: "r5 = Inr (Some cl2)"
            by auto
          from c2 r5 have l2: "length cl2 = 5"
            by (auto dest: anticoll_cl2_length)
          obtain r6 w6 where s2: "select_cl2 cl2 w5 = (r6, w6)"
            by (cases "select_cl2 cl2 w5")
          from a r2 c1 r3 s1 r4 c2 r5 s2 assms have "select_cl2 cl2 w5 = (Inl e, w6)"
            by (cases r6) (auto simp: read_tag_atqa split: option.splits if_splits)
          then show ?thesis
            using l2 by (rule helper_errors(5))
        qed
      qed
    qed
  qed
qed

section \<open>The claims\<close>

text \<open>
  C1. When the first byte of the level-1 anticollision result is the cascade tag \<open>0x88\<close>
  and the four exchanges (anticollision and select at levels 1 and 2) succeed, \<open>read_tag\<close>
  returns the seven bytes made of bytes 1 to 3 of the level-1 result followed by bytes 0 to 3
  of the level-2 result, with the level-2 SAK.
\<close>

theorem read_tag_seven_byte_uid:
  assumes "request_atqa (uart self) = (Inr (Some (atqa1, atqa2)), w2)"
    and "anticoll_cl1 w2 = (Inr (Some cl1), w3)"
    and "cl1 ! 0 = 0x88"
    and "select_cl1 cl1 w3 = (Inr (Some sak1), w4)"
    and "anticoll_cl2 w4 = (Inr (Some cl2), w5)"
    and "select_cl2 cl2 w5 = (Inr (Some sak2), w6)"
  shows "read_tag self =
           (Inr (Some ([cl1 ! 1, cl1 ! 2, cl1 ! 3, cl2 ! 0, cl2 ! 1, cl2 ! 2, cl2 ! 3], sak2)),
            self\<lparr>last_atqa := (last_atqa self)[0 := atqa1, 1 := atqa2], uart := w6\<rparr>)"
proof -
  have "length cl1 = 5" and "length cl2 = 5"
    using assms(2,5) by (auto dest: anticoll_cl1_length anticoll_cl2_length)
  then have "drop 1 (take 4 cl1) = [cl1 ! 1, cl1 ! 2, cl1 ! 3]"
    and "take 4 cl2 = [cl2 ! 0, cl2 ! 1, cl2 ! 2, cl2 ! 3]"
    by (simp_all add: mid3_of_five take4_of_five)
  with assms show ?thesis
    by (simp add: read_tag_atqa ISO14443A_CT_def)
qed

theorem read_tag_seven_byte_uid_witness:
  "fst (read_tag (fresh tag7)) = Inr (Some ([0x11, 0x22, 0x33, 0x44, 0x55, 0x66, 0x77], 0x00))"
proof -
  have "[0x88, 0x11, 0x22, 0x33, 0xAA] ! 0 = (0x88 :: byte)"
    by simp
  from read_tag_seven_byte_uid [OF atqa_answered [of _ "[]"] anticoll_cl1_cascade this
      select_cl1_cascade [of "0x20"] anticoll_cl2_answered select_cl2_answered [of "[]"]]
  show ?thesis
    by (simp add: tag7_def tag7_sak_def)
qed

text \<open>
  C2. When an ATQA is obtained, the level-1 anticollision result does not start with
  \<open>0x88\<close> and the level-1 select returns a SAK, \<open>read_tag\<close> returns the first four
  anticollision bytes and that SAK, and the channel is left as the select left it: nothing
  is exchanged at level 2.
\<close>

theorem read_tag_four_byte_uid:
  assumes "request_atqa (uart self) = (Inr (Some (atqa1, atqa2)), w2)"
    and "anticoll_cl1 w2 = (Inr (Some cl1), w3)"
    and "cl1 ! 0 \<noteq> 0x88"
    and "select_cl1 cl1 w3 = (Inr (Some sak), w4)"
  shows "read_tag self =
           (Inr (Some ([cl1 ! 0, cl1 ! 1, cl1 ! 2, cl1 ! 3], sak)),
            self\<lparr>last_atqa := (last_atqa self)[0 := atqa1, 1 := atqa2], uart := w4\<rparr>) \<and>
         uart (snd (read_tag self)) = w4"
proof -
  have "length cl1 = 5"
    using assms(2) by (rule anticoll_cl1_length)
  then have "take 4 cl1 = [cl1 ! 0, cl1 ! 1, cl1 ! 2, cl1 ! 3]"
    by (rule take4_of_five)
  with assms show ?thesis
    by (simp add: read_tag_atqa ISO14443A_CT_def)
qed

theorem read_tag_four_byte_uid_witness:
  "fst (read_tag (fresh tag4)) = Inr (Some ([0x01, 0x02, 0x03, 0x04], 0x08)) \<and>
   tx (uart (snd (read_tag (fresh tag4)))) =
     [[4, 2, 0x52, 7], [4, 2, 0x26, 7], [4, 3, 0x93, 0x20, 8],
      [4, 8, 0x93, 0x70, 0x01, 0x02, 0x03, 0x04, 0x06, 0x28]]"
proof -
  have "[0x01, 0x02, 0x03, 0x04, 0x06] ! 0 \<noteq> (0x88 :: byte)"
    by simp
  from read_tag_four_byte_uid [OF atqa_reqa_answered [of _ "[]"] anticoll_cl1_single this
      select_cl1_single [of "0x08" "[]"]]
  show ?thesis
    by (simp add: tag4_def tag4_sak_def chan_def)
qed

text \<open>
  C3. A timeout of the host-side receive during a discovery exchange is not turned into
  \<open>(None, None)\<close>. \<open>_sendrecv\<close> fails only with the \<open>TimeoutError\<close> of
  \<open>_read_response(50)\<close>, and that error leaves \<open>read_tag\<close> as an exception at
  whichever exchange it occurs: WUPA, REQA, anticollision or select at level 1 or level 2.
  No other exception leaves \<open>read_tag\<close>. During bring-up the same timeout, on the read
  of the identification response, is a hard failure: \<open>_initialize\<close> raises
  \<open>OSError\<close>, as it does for every failure of bring-up.
\<close>

theorem discovery_timeout_propagates:
  "(sendrecv rf_data flags w = (Inl e, w') \<and> length rf_data < 255 \<longrightarrow>
      (\<exists>t. e = TimeoutError t) \<and>
      read_response 50 (snd (send_cmd CMD_SENDRECV (rf_data @ [flags]) w)) = (Inl e, w')) \<and>
   (sendrecv [ISO14443A_WUPA] FLAG_SHORTFRAME (uart self) = (Inl e, w1) \<longrightarrow>
      read_tag self = (Inl e, self\<lparr>uart := w1\<rparr>)) \<and>
   (reqa_wupa ISO14443A_WUPA (uart self) = (Inr None, w1) \<and>
    sendrecv [ISO14443A_REQA] FLAG_SHORTFRAME w1 = (Inl e, w2) \<longrightarrow>
      read_tag self = (Inl e, self\<lparr>uart := w2\<rparr>)) \<and>
   (request_atqa (uart self) = (Inr (Some (atqa1, atqa2)), w2) \<and>
    sendrecv [ISO14443A_SEL_CL1, ISO14443A_NVB_ANTICOLL] FLAG_STD w2 = (Inl e, w3) \<longrightarrow>
      read_tag self =
        (Inl e, self\<lparr>last_atqa := (last_atqa self)[0 := atqa1, 1 := atqa2], uart := w3\<rparr>)) \<and>
   (request_atqa (uart self) = (Inr (Some (atqa1, atqa2)), w2) \<and>
    anticoll_cl1 w2 = (Inr (Some cl1), w3) \<and>
    sendrecv ([ISO14443A_SEL_CL1, ISO14443A_NVB_SELECT] @ cl1) FLAG_STD_CRC w3 = (Inl e, w4) \<longrightarrow>
      read_tag self =
        (Inl e, self\<lparr>last_atqa := (last_atqa self)[0 := atqa1, 1 := atqa2], uart := w4\<rparr>)) \<and>
   (request_atqa (uart self) = (Inr (Some (atqa1, atqa2)), w2) \<and>
    anticoll_cl1 w2 = (Inr (Some cl1), w3) \<and> cl1 ! 0 = 0x88 \<and>
    select_cl1 cl1 w3 = (Inr (Some sak1), w4) \<and>
    sendrecv [ISO14443A_SEL_CL2, ISO14443A_NVB_ANTICOLL] FLAG_STD w4 = (Inl e, w5) \<longrightarrow>
      read_tag self =
        (Inl e, self\<lparr>last_atqa := (last_atqa self)[0 := atqa1, 1 := atqa2], uart := w5\<rparr>)) \<and>
   (request_atqa (uart self) = (Inr (Some (atqa1, atqa2)), w2) \<and>
    anticoll_cl1 w2 = (Inr (Some cl1), w3) \<and> cl1 ! 0 = 0x88 \<and>
    select_cl1 cl1 w3 = (Inr (Some sak1), w4) \<and>
    anticoll_cl2 w4 = (Inr (Some cl2), w5) \<and>
    sendrecv ([ISO14443A_SEL_CL2, ISO14443A_NVB_SELECT] @ cl2) FLAG_STD_CRC w5 = (Inl e, w6) \<longrightarrow>
      read_tag self =
        (Inl e, self\<lparr>last_atqa := (last_atqa self)[0 := atqa1, 1 := atqa2], uart := w6\<rparr>)) \<and>
   (echo_test (wake_up wake_pulse_ms (uart self)) = (Inr (), v5) \<and>
    read_response 100 (snd (send_cmd CMD_IDN [] v5)) = (Inl (TimeoutError t), v7) \<longrightarrow>
      initialize wake_pulse_ms self = (Inl (OSError (DeviceIdTimeout t)), self\<lparr>uart := v7\<rparr>)) \<and>
   (read_tag self = (Inl e, self') \<longrightarrow> (\<exists>t. e = TimeoutError t)) \<and>
   (initialize wake_pulse_ms self = (Inl e, self') \<longrightarrow> (\<exists>m. e = OSError m))"
proof (intro conjI impI; (elim conjE)?)
  assume "sendrecv rf_data flags w = (Inl e, w')" and "length rf_data < 255"
  then show "\<exists>t. e = TimeoutError t"
    by (rule sendrecv_error [rotated])
next
  assume "sendrecv rf_data flags w = (Inl e, w')" and "length rf_data < 255"
  then show "read_response 50 (snd (send_cmd CMD_SENDRECV (rf_data @ [flags]) w)) = (Inl e, w')"
    by (simp add: sendrecv_def Let_def send_cmd_ok)
next
  assume "sendrecv [ISO14443A_WUPA] FLAG_SHORTFRAME (uart self) = (Inl e, w1)"
  then show "read_tag self = (Inl e, self\<lparr>uart := w1\<rparr>)"
    by (rule read_tag_wupa_raises)
next
  assume "reqa_wupa ISO14443A_WUPA (uart self) = (Inr None, w1)"
    and "sendrecv [ISO14443A_REQA] FLAG_SHORTFRAME w1 = (Inl e, w2)"
  then show "read_tag self = (Inl e, self\<lparr>uart := w2\<rparr>)"
    by (rule read_tag_reqa_raises)
next
  assume "request_atqa (uart self) = (Inr (Some (atqa1, atqa2)), w2)"
    and "sendrecv [ISO14443A_SEL_CL1, ISO14443A_NVB_ANTICOLL] FLAG_STD w2 = (Inl e, w3)"
  then show "read_tag self =
        (Inl e, self\<lparr>last_atqa := (last_atqa self)[0 := atqa1, 1 := atqa2], uart := w3\<rparr>)"
    by (simp add: read_tag_atqa anticoll_cl1_error [THEN iffD2])
next
  assume "request_atqa (uart self) = (Inr (Some (atqa1, atqa2)), w2)"
    and "anticoll_cl1 w2 = (Inr (Some cl1), w3)"
    and "sendrecv ([ISO14443A_SEL_CL1, ISO14443A_NVB_SELECT] @ cl1) FLAG_STD_CRC w3 = (Inl e, w4)"
  then show "read_tag self =
        (Inl e, self\<lparr>last_atqa := (last_atqa self)[0 := atqa1, 1 := atqa2], uart := w4\<rparr>)"
    by (simp add: read_tag_atqa select_cl1_error [THEN iffD2])
next
  assume "request_atqa (uart self) = (Inr (Some (atqa1, atqa2)), w2)"
    and "anticoll_cl1 w2 = (Inr (Some cl1), w3)" and "cl1 ! 0 = 0x88"
    and "select_cl1 cl1 w3 = (Inr (Some sak1), w4)"
    and "sendrecv [ISO14443A_SEL_CL2, ISO14443A_NVB_ANTICOLL] FLAG_STD w4 = (Inl e, w5)"
  then show "read_tag self =
        (Inl e, self\<lparr>last_atqa := (last_atqa self)[0 := atqa1, 1 := atqa2], uart := w5\<rparr>)"
    by (simp add: read_tag_atqa anticoll_cl2_error [THEN iffD2] ISO14443A_CT_def)
next
  assume "request_atqa (uart self) = (Inr (Some (atqa1, atqa2)), w2)"
    and "anticoll_cl1 w2 = (Inr (Some cl1), w3)" and "cl1 ! 0 = 0x88"
    and "select_cl1 cl1 w3 = (Inr (Some sak1), w4)"
    and "anticoll_cl2 w4 = (Inr (Some cl2), w5)"
    and "sendrecv ([ISO14443A_SEL_CL2, ISO14443A_NVB_SELECT] @ cl2) FLAG_STD_CRC w5 = (Inl e, w6)"
  then show "read_tag self =
        (Inl e, self\<lparr>last_atqa := (last_atqa self)[0 := atqa1, 1 := atqa2], uart := w6\<rparr>)"
    by (simp add: read_tag_atqa select_cl2_error [THEN iffD2] ISO14443A_CT_def)
next
  assume "echo_test (wake_up wake_pulse_ms (uart self)) = (Inr (), v5)"
    and "read_response 100 (snd (send_cmd CMD_IDN [] v5)) = (Inl (TimeoutError t), v7)"
  then show "initialize wake_pulse_ms self =
      (Inl (OSError (DeviceIdTimeout t)), self\<lparr>uart := v7\<rparr>)"
    by (simp add: initialize_def send_cmd_ok)
next
  assume "read_tag self = (Inl e, self')"
  then show "\<exists>t. e = TimeoutError t"
    by (rule read_tag_error)
next
  assume "initialize wake_pulse_ms self = (Inl e, self')"
  then show "\<exists>m. e = OSError m"
    by (rule initialize_error)
qed

text \<open>
  The chip stops answering before WUPA, before REQA, and before each of the four later
  exchanges with the tag of \<open>tag7\<close>; and during bring-up, after the echo.
\<close>

theorem discovery_timeout_propagates_witness:
  "fst (read_tag (fresh (cut 0 tag7))) = Inl (TimeoutError ResultCodeWait) \<and>
   fst (read_tag (fresh (cut 1 tag4))) = Inl (TimeoutError ResultCodeWait) \<and>
   fst (read_tag (fresh (cut 1 tag7))) = Inl (TimeoutError ResultCodeWait) \<and>
   fst (read_tag (fresh (cut 2 tag7))) = Inl (TimeoutError ResultCodeWait) \<and>
   fst (read_tag (fresh (cut 3 tag7))) = Inl (TimeoutError ResultCodeWait) \<and>
   fst (read_tag (fresh (cut 4 tag7))) = Inl (TimeoutError ResultCodeWait) \<and>
   fst (initialize 2 (fresh (cut 2 chip))) = Inl (OSError (DeviceIdTimeout ResultCodeWait)) \<and>
   fst (read_response 50 (snd (send_cmd CMD_SENDRECV ([ISO14443A_WUPA] @ [FLAG_SHORTFRAME])
          (cut 0 tag7)))) = Inl (TimeoutError ResultCodeWait)"
proof -
  note t = discovery_timeout_propagates
  have l1: "length [x] < 255" for x :: byte
    by simp
  have l2: "length [x, y] < 255" for x y :: byte
    by simp
  have l7: "length ([x, y] @ [a, b, c, d, e]) < 255" for x y a b c d e :: byte
    by simp
  have c5: "[0x88, 0x11, 0x22, 0x33, 0xAA] ! 0 = (0x88 :: byte)"
    by simp
  have s0: "sendrecv [ISO14443A_WUPA] FLAG_SHORTFRAME (uart (fresh (chan 0 [] []))) =
      (Inl (TimeoutError ResultCodeWait),
       snd (sendrecv [ISO14443A_WUPA] FLAG_SHORTFRAME (uart (fresh (chan 0 [] [])))))"
    unfolding uart_fresh by (rule sendrecv_chan_silent [OF l1])
  note a = atqa_answered [of _ "[]"]
  have "fst (read_tag (fresh (cut 0 tag7))) = Inl (TimeoutError ResultCodeWait)"
    using t [THEN conjunct2, THEN conjunct1, rule_format, OF s0]
    by (simp only: cut_tag7) simp
  moreover have "fst (read_tag (fresh (cut 1 tag4))) = Inl (TimeoutError ResultCodeWait)"
    using t [THEN conjunct2, THEN conjunct2, THEN conjunct1, rule_format,
        OF conjI [OF wupa_fresh_unanswered [of "[]" "[]"] sendrecv_chan_silent [OF l1]]]
    by (simp only: cut_tag4) simp
  moreover have "fst (read_tag (fresh (cut 1 tag7))) = Inl (TimeoutError ResultCodeWait)"
    using t [THEN conjunct2, THEN conjunct2, THEN conjunct2, THEN conjunct1, rule_format,
        OF conjI [OF a [of "[]"] sendrecv_chan_silent [OF l2]]]
    by (simp only: cut_tag7) simp
  moreover have "fst (read_tag (fresh (cut 2 tag7))) = Inl (TimeoutError ResultCodeWait)"
    using t [THEN conjunct2, THEN conjunct2, THEN conjunct2, THEN conjunct2, THEN conjunct1,
        rule_format,
        OF conjI [OF a conjI [OF anticoll_cl1_cascade [of "[]"] sendrecv_chan_silent [OF l7]]]]
    by (simp only: cut_tag7) simp
  moreover have "fst (read_tag (fresh (cut 3 tag7))) = Inl (TimeoutError ResultCodeWait)"
    using t [THEN conjunct2, THEN conjunct2, THEN conjunct2, THEN conjunct2, THEN conjunct2,
        THEN conjunct1, rule_format,
        OF conjI [OF a conjI [OF anticoll_cl1_cascade conjI [OF c5
          conjI [OF select_cl1_cascade [of "0x20" "[]"] sendrecv_chan_silent [OF l2]]]]]]
    by (simp only: cut_tag7) simp
  moreover have "fst (read_tag (fresh (cut 4 tag7))) = Inl (TimeoutError ResultCodeWait)"
    using t [THEN conjunct2, THEN conjunct2, THEN conjunct2, THEN conjunct2, THEN conjunct2,
        THEN conjunct2, THEN conjunct1, rule_format,
        OF conjI [OF a conjI [OF anticoll_cl1_cascade conjI [OF c5
          conjI [OF select_cl1_cascade [of "0x20"] conjI [OF anticoll_cl2_answered [of "[]"]
            sendrecv_chan_silent [OF l7]]]]]]]
    by (simp only: cut_tag7) simp
  moreover have "fst (initialize 2 (fresh (cut 2 chip))) =
      Inl (OSError (DeviceIdTimeout ResultCodeWait))"
    using t [THEN conjunct2, THEN conjunct2, THEN conjunct2, THEN conjunct2, THEN conjunct2,
        THEN conjunct2, THEN conjunct2, THEN conjunct1, rule_format,
        OF conjI [OF bringup_echo [of "[]"] read_response_chan_silent]]
    by (simp only: cut_chip) simp
  moreover have "fst (read_response 50 (snd (send_cmd CMD_SENDRECV
        ([ISO14443A_WUPA] @ [FLAG_SHORTFRAME]) (cut 0 tag7)))) = Inl (TimeoutError ResultCodeWait)"
    using t [THEN conjunct1, rule_format,
        OF conjI [OF sendrecv_chan_silent [OF l1, of ISO14443A_WUPA FLAG_SHORTFRAME 0 "[]"] l1]]
    by (simp only: cut_tag7) simp
  ultimately show ?thesis
    using t [THEN conjunct2, THEN conjunct2, THEN conjunct2, THEN conjunct2, THEN conjunct2,
        THEN conjunct2, THEN conjunct2, THEN conjunct2, THEN conjunct1, rule_format,
        OF with_snd, of "fresh (cut 0 tag7)" "TimeoutError ResultCodeWait"]
      t [THEN conjunct2, THEN conjunct2, THEN conjunct2, THEN conjunct2, THEN conjunct2,
        THEN conjunct2, THEN conjunct2, THEN conjunct2, THEN conjunct2, rule_format,
        OF with_snd, of 2 "fresh (cut 2 chip)" "OSError (DeviceIdTimeout ResultCodeWait)"]
    by simp
qed

text \<open>With a chip that never answers, \<open>read_tag\<close> raises instead of returning \<open>(None, None)\<close>.\<close>

theorem read_tag_mute_raises:
  "fst (read_tag (fresh mute)) = Inl (TimeoutError ResultCodeWait) \<and>
   fst (read_tag (fresh mute)) \<noteq> Inr None"
proof -
  have "length [ISO14443A_WUPA] < 255"
    by simp
  then have "sendrecv [ISO14443A_WUPA] FLAG_SHORTFRAME (uart (fresh (chan 0 [] []))) =
      (Inl (TimeoutError ResultCodeWait),
       snd (sendrecv [ISO14443A_WUPA] FLAG_SHORTFRAME (uart (fresh (chan 0 [] [])))))"
    unfolding uart_fresh by (rule sendrecv_chan_silent)
  from read_tag_wupa_raises [OF this] show ?thesis
    by (simp add: mute_def)
qed

text \<open>
  C4. A call of \<open>_read_response\<close> fails in three ways, told apart by the error: no result
  code, no length byte, or a payload cut short, the last one reporting the bytes received and
  the bytes expected. The three waits share the one deadline counted from the entry of the
  call, but they look at the clock only when the receive buffer is empty: a failure is raised
  only at a reading of the clock at or after the deadline, with the buffer empty, and the
  error tells how much of the frame had been read; the call does fail when the missing bytes
  are still absent one clock reading after the deadline. Bytes that come after the deadline
  and before the next reading of the clock are accepted, so exceeding the budget is not
  always a failure. A success always carries the whole payload announced by the length byte.
\<close>

theorem read_response_timeouts:
  "(read_response timeout_ms w = (Inl e, w') \<longrightarrow>
      now w + timeout_ms * 1000 + Suc (lag w) \<le> now w' \<and> rx w' = [] \<and>
      (e = TimeoutError ResultCodeWait \<and> stream w = stream w' \<or>
       e = TimeoutError LengthByteWait \<and> (\<exists>c. stream w = c # stream w') \<or>
       (\<exists>c n got. e = TimeoutError (DataWait (length got) (unat n)) \<and>
          stream w = c # n # got @ stream w' \<and> length got < unat n))) \<and>
   (read_response timeout_ms w = (Inr (code, data), w') \<longrightarrow>
      (\<exists>n. stream w = code # n # data @ stream w' \<and> length data = unat n)) \<and>
   (arrived w (now w + timeout_ms * 1000 + Suc (lag w)) = [] \<longrightarrow>
      fst (read_response timeout_ms w) = Inl (TimeoutError ResultCodeWait)) \<and>
   (arrived w (now w + timeout_ms * 1000) = [c1] \<and>
    arrived w (now w + timeout_ms * 1000 + Suc (lag w)) = [c1] \<longrightarrow>
      fst (read_response timeout_ms w) = Inl (TimeoutError LengthByteWait)) \<and>
   (arrived w (now w + timeout_ms * 1000) = c2 # n2 # part \<and>
    arrived w (now w + timeout_ms * 1000 + Suc (lag w)) = c2 # n2 # part \<and>
    length part < unat n2 \<longrightarrow>
      fst (read_response timeout_ms w) = Inl (TimeoutError (DataWait (length part) (unat n2))))"
proof (intro conjI impI)
  assume r: "read_response timeout_ms w = (Inl e, w')"
  from read_response_sound [OF r]
  show "now w + timeout_ms * 1000 + Suc (lag w) \<le> now w'" and "rx w' = []"
    and "e = TimeoutError ResultCodeWait \<and> stream w = stream w' \<or>
       e = TimeoutError LengthByteWait \<and> (\<exists>c. stream w = c # stream w') \<or>
       (\<exists>c n got. e = TimeoutError (DataWait (length got) (unat n)) \<and>
          stream w = c # n # got @ stream w' \<and> length got < unat n)"
    by simp_all
next
  assume r: "read_response timeout_ms w = (Inr (code, data), w')"
  from read_response_sound [OF r]
  show "\<exists>n. stream w = code # n # data @ stream w' \<and> length data = unat n"
    by simp
next
  assume "arrived w (now w + timeout_ms * 1000 + Suc (lag w)) = []"
  then show "fst (read_response timeout_ms w) = Inl (TimeoutError ResultCodeWait)"
    by (rule read_response_no_byte)
next
  assume "arrived w (now w + timeout_ms * 1000) = [c1] \<and>
    arrived w (now w + timeout_ms * 1000 + Suc (lag w)) = [c1]"
  then show "fst (read_response timeout_ms w) = Inl (TimeoutError LengthByteWait)"
    by (auto intro: read_response_one_byte)
next
  assume "arrived w (now w + timeout_ms * 1000) = c2 # n2 # part \<and>
    arrived w (now w + timeout_ms * 1000 + Suc (lag w)) = c2 # n2 # part \<and>
    length part < unat n2"
  then show "fst (read_response timeout_ms w) =
      Inl (TimeoutError (DataWait (length part) (unat n2)))"
    by (auto intro: read_response_short)
qed

theorem read_response_timeouts_witness:
  "fst (read_response 50 quiet) = Inl (TimeoutError ResultCodeWait) \<and>
   fst (read_response 50 one_byte) = Inl (TimeoutError LengthByteWait) \<and>
   fst (read_response 50 short_frame) = Inl (TimeoutError (DataWait 2 5)) \<and>
   57000 \<le> now (snd (read_response 50 short_frame)) \<and>
   rx (snd (read_response 50 short_frame)) = [] \<and>
   stream (snd (read_response 50 short_frame)) = [0x03, 0x04, 0x06] \<and>
   stream (snd (read_response 50 framed)) = [0x99, 0x11]"
proof -
  note t = read_response_timeouts
  have q: "fst (read_response 50 quiet) = Inl (TimeoutError ResultCodeWait)"
    using t [THEN conjunct2, THEN conjunct2, THEN conjunct1, of quiet 50]
    by (simp add: quiet_def arrived_def due_def)
  have o: "fst (read_response 50 one_byte) = Inl (TimeoutError LengthByteWait)"
    using t [THEN conjunct2, THEN conjunct2, THEN conjunct2, THEN conjunct1, of one_byte 50 "0x80"]
    by (simp add: one_byte_def arrived_def due_def)
  have s: "fst (read_response 50 short_frame) = Inl (TimeoutError (DataWait 2 5))"
    using t [THEN conjunct2, THEN conjunct2, THEN conjunct2, THEN conjunct2,
        of short_frame 50 "0x80" "0x05" "[0x01, 0x02]"]
    by (simp add: short_frame_def arrived_def due_def)
  from t [THEN conjunct1, rule_format, OF s [THEN with_snd]]
  have b: "now short_frame + 50 * 1000 + Suc (lag short_frame) \<le>
          now (snd (read_response 50 short_frame)) \<and>
        rx (snd (read_response 50 short_frame)) = []"
    and "\<exists>c n got. DataWait 2 5 = DataWait (length got) (unat n) \<and>
           stream short_frame = c # n # got @ stream (snd (read_response 50 short_frame))"
    by auto
  then obtain got :: "byte list" where "length got = 2"
    and "got @ stream (snd (read_response 50 short_frame)) = [0x01, 0x02, 0x03, 0x04, 0x06]"
    by (auto simp: short_frame_def stream_def)
  then have "stream (snd (read_response 50 short_frame)) = [0x03, 0x04, 0x06]"
    by (auto simp: append_eq_conv_conj)
  with b have f: "57000 \<le> now (snd (read_response 50 short_frame)) \<and>
      rx (snd (read_response 50 short_frame)) = [] \<and>
      stream (snd (read_response 50 short_frame)) = [0x03, 0x04, 0x06]"
    by (simp add: short_frame_def)
  have "fst (read_response 50 framed) = Inr (0x80, [0xAA, 0xBB, 0xCC])"
    by (rule read_response_frame_lemma [of framed 50 "0x80" "0x03" "[0xAA, 0xBB, 0xCC]" "[0x99]"])
       (simp_all add: framed_def arrived_def due_def)
  from t [THEN conjunct2, THEN conjunct1, rule_format, OF this [THEN with_snd]]
  have "stream (snd (read_response 50 framed)) = [0x99, 0x11]"
    by (auto simp: framed_def stream_def)
  with q o s f show ?thesis
    by simp
qed

text \<open>
  On \<open>late_frame\<close> the payload is one byte short at the deadline, 50 ms after the entry
  of the call; the call goes on and returns the frame at 56 ms.
\<close>

theorem read_response_late_success:
  "arrived late_frame (now late_frame + 50 * 1000) = [0x80, 0x02, 0xAA] \<and>
   fst (read_response 50 late_frame) = Inr (0x80, [0xAA, 0xBB]) \<and>
   now (snd (read_response 50 late_frame)) = 56000"
proof -
  have "read_response 50 late_frame =
      (Inr (0x80, [0xAA, 0xBB]),
       \<lparr>now = 56000, lag = 6999, rx = [], line = [], script = [], tx = [],
          edge = (\<lambda>_ _. Exact)\<rparr>)"
    by (simp add: late_frame_def run_simps)
  then show ?thesis
    by (simp add: late_frame_def arrived_def due_def)
qed

text \<open>
  C5. When the bytes of a response frame (result code, length byte \<open>n\<close>, \<open>n\<close> payload
  bytes) are all in the receive buffer by the deadline, the timeout counted from the entry of
  the call, \<open>_read_response\<close> returns that result code and exactly those \<open>n\<close> payload
  bytes, whatever the chunks in which they arrive and whatever follows them.
\<close>

theorem read_response_complete_frame:
  assumes "arrived w (now w + timeout_ms * 1000) = c # n # payload @ rest"
    and "length payload = unat n"
  shows "fst (read_response timeout_ms w) = Inr (c, payload)"
  using assms by (rule read_response_frame_lemma)

theorem read_response_complete_frame_witness:
  "fst (read_response 50 framed) = Inr (0x80, [0xAA, 0xBB, 0xCC])"
  using read_response_complete_frame [of framed 50 "0x80" "0x03" "[0xAA, 0xBB, 0xCC]" "[0x99]"]
  by (simp add: framed_def arrived_def due_def)

text \<open>
  C6. Whether \<open>read_tag\<close> goes on to level 2 depends on the first byte of the level-1
  anticollision result only, never on the level-1 SAK. Take two discoveries that obtain an
  ATQA and the same level-1 anticollision result, and whose level-1 selects return two SAKs,
  any two, and leave the channel in the same state. They end with the same channel and the
  same outcome but for the SAK returned: the same error, or no tag, or the same UID. A
  level-2 frame is written exactly when the first level-1 byte is \<open>0x88\<close>.
\<close>

theorem cascade_decision_ignores_sak:
  assumes "request_atqa (uart self) = (Inr (Some (atqa1, atqa2)), w2)"
    and "anticoll_cl1 w2 = (Inr (Some cl1), w3)"
    and "select_cl1 cl1 w3 = (Inr (Some sak), w4)"
    and "request_atqa (uart self') = (Inr (Some (atqa1', atqa2')), w2')"
    and "anticoll_cl1 w2' = (Inr (Some cl1), w3')"
    and "select_cl1 cl1 w3' = (Inr (Some sak'), w4)"
  shows "uart (snd (read_tag self)) = uart (snd (read_tag self')) \<and>
         map_sum id (map_option fst) (fst (read_tag self)) =
           map_sum id (map_option fst) (fst (read_tag self')) \<and>
         (cl1 ! 0 = 0x88 \<longleftrightarrow> length (tx w4) < length (tx (uart (snd (read_tag self)))))"
proof (cases "cl1 ! 0 = 0x88")
  case False
  with assms show ?thesis
    by (simp add: read_tag_atqa ISO14443A_CT_def)
next
  case True
  obtain r5 w5 where c2: "anticoll_cl2 w4 = (r5, w5)"
    by (cases "anticoll_cl2 w4")
  have t5: "tx w5 = tx w4 @ [[0x04, 0x03, 0x95, 0x20, 0x08]]"
    using c2 by (rule tx_anticoll_cl2)
  have same: "uart (snd (read_tag self)) = uart (snd (read_tag self')) \<and>
         map_sum id (map_option fst) (fst (read_tag self)) =
           map_sum id (map_option fst) (fst (read_tag self'))"
    using assms True
    by (simp add: read_tag_atqa ISO14443A_CT_def split: prod.splits sum.splits option.splits)
  have "extends (tx w5) (tx (uart (snd (read_tag self))))"
  proof (cases "\<exists>cl2. r5 = Inr (Some cl2)")
    case False
    with assms(1-3) True c2 have "uart (snd (read_tag self)) = w5"
      by (cases r5) (auto simp: read_tag_atqa ISO14443A_CT_def split: option.splits)
    then show ?thesis
      by simp
  next
    case cl2: True
    then obtain cl2 where r5: "r5 = Inr (Some cl2)"
      by blast
    obtain r6 w6 where s2: "select_cl2 cl2 w5 = (r6, w6)"
      by (cases "select_cl2 cl2 w5")
    from assms(1-3) True c2 r5 s2 have "uart (snd (read_tag self)) = w6"
      by (cases r6) (auto simp: read_tag_atqa ISO14443A_CT_def split: option.splits)
    with select_cl2_ext [OF s2] show ?thesis
      by simp
  qed
  with t5 have "length (tx w4) < length (tx (uart (snd (read_tag self))))"
    by (auto simp: extends_def)
  with same True show ?thesis
    by simp
qed

text \<open>
  The tag of \<open>tag7\<close> with the cascade bit of the level-1 SAK clear (\<open>20\<close>) and set
  (\<open>24\<close>), and the tag of \<open>tag4\<close> with it clear (\<open>08\<close>) and set (\<open>0C\<close>).
\<close>

theorem cascade_decision_ignores_sak_witness:
  "uart (snd (read_tag (fresh (tag7_sak 0x20)))) = uart (snd (read_tag (fresh (tag7_sak 0x24)))) \<and>
   map_sum id (map_option fst) (fst (read_tag (fresh (tag7_sak 0x20)))) =
     map_sum id (map_option fst) (fst (read_tag (fresh (tag7_sak 0x24)))) \<and>
   3 < length (tx (uart (snd (read_tag (fresh (tag7_sak 0x20)))))) \<and>
   uart (snd (read_tag (fresh (tag4_sak 0x08)))) = uart (snd (read_tag (fresh (tag4_sak 0x0C)))) \<and>
   map_sum id (map_option fst) (fst (read_tag (fresh (tag4_sak 0x08)))) =
     map_sum id (map_option fst) (fst (read_tag (fresh (tag4_sak 0x0C)))) \<and>
   length (tx (uart (snd (read_tag (fresh (tag4_sak 0x08)))))) \<le> 4"
proof -
  note c7 = cascade_decision_ignores_sak
    [OF atqa_answered [of _ "[]"] anticoll_cl1_cascade select_cl1_cascade [of "0x20"]
        atqa_answered [of _ "[]"] anticoll_cl1_cascade select_cl1_cascade [of "0x24"]]
  note c4 = cascade_decision_ignores_sak
    [OF atqa_reqa_answered [of _ "[]"] anticoll_cl1_single select_cl1_single [of "0x08"]
        atqa_reqa_answered [of _ "[]"] anticoll_cl1_single select_cl1_single [of "0x0C"]]
  note c7' = c7 [of "[[(400, [0x80, 0x05, 0x44, 0x55, 0x66, 0x77, 0xBB])],
                       [(500, [0x80]), (2500, [0x01, 0x00])]]"]
  note c4' = c4 [of "[]"]
  have a1: "uart (snd (read_tag (fresh (tag7_sak 0x20)))) =
          uart (snd (read_tag (fresh (tag7_sak 0x24))))"
    using c7' [THEN conjunct1] by (simp add: tag7_sak_def)
  have a2: "map_sum id (map_option fst) (fst (read_tag (fresh (tag7_sak 0x20)))) =
          map_sum id (map_option fst) (fst (read_tag (fresh (tag7_sak 0x24))))"
    using c7' [THEN conjunct2, THEN conjunct1] by (simp add: tag7_sak_def)
  have a3: "3 < length (tx (uart (snd (read_tag (fresh (tag7_sak 0x20))))))"
    using c7' [THEN conjunct2, THEN conjunct2] by (simp add: tag7_sak_def tx_chan)
  have b1: "uart (snd (read_tag (fresh (tag4_sak 0x08)))) =
          uart (snd (read_tag (fresh (tag4_sak 0x0C))))"
    using c4' [THEN conjunct1] by (simp add: tag4_sak_def)
  have b2: "map_sum id (map_option fst) (fst (read_tag (fresh (tag4_sak 0x08)))) =
          map_sum id (map_option fst) (fst (read_tag (fresh (tag4_sak 0x0C))))"
    using c4' [THEN conjunct2, THEN conjunct1] by (simp add: tag4_sak_def)
  have b3: "length (tx (uart (snd (read_tag (fresh (tag4_sak 0x08)))))) \<le> 4"
    using c4' [THEN conjunct2, THEN conjunct2] by (simp add: tag4_sak_def tx_chan not_less)
  from a1 a2 a3 b1 b2 b3 show ?thesis
    by (intro conjI)
qed

text \<open>
  C7. The first frame a discovery writes is WUPA. When WUPA is answered without an ATQA,
  the second frame is REQA, once; when REQA is answered without an ATQA too, \<open>read_tag\<close>
  returns \<open>(None, None)\<close> and these two frames are all it has written. When WUPA gives an
  ATQA no REQA is sent: the second frame is the level-1 anticollision. This holds for the
  answers that \<open>_reqa_wupa\<close> turns into \<open>(None, None)\<close>; a request that gets no
  response frame at all raises \<open>TimeoutError\<close>, which \<open>read_tag\<close> lets through.
\<close>

theorem wupa_then_one_reqa:
  "(\<exists>fs. tx (uart (snd (read_tag self))) = tx (uart self) @ [0x04, 0x02, 0x52, 0x07] # fs) \<and>
   (reqa_wupa ISO14443A_WUPA (uart self) = (Inr None, w1) \<longrightarrow>
      (\<exists>fs. tx (uart (snd (read_tag self))) =
             tx (uart self) @ [0x04, 0x02, 0x52, 0x07] # [0x04, 0x02, 0x26, 0x07] # fs)) \<and>
   (reqa_wupa ISO14443A_WUPA (uart self) = (Inr None, w1) \<and>
    reqa_wupa ISO14443A_REQA w1 = (Inr None, w2) \<longrightarrow>
      read_tag self = (Inr None, self\<lparr>uart := w2\<rparr>) \<and>
      tx w2 = tx (uart self) @ [[0x04, 0x02, 0x52, 0x07], [0x04, 0x02, 0x26, 0x07]]) \<and>
   (reqa_wupa ISO14443A_WUPA (uart self) = (Inr (Some atqa), w1) \<longrightarrow>
      (\<exists>fs. tx (uart (snd (read_tag self))) =
             tx (uart self) @ [0x04, 0x02, 0x52, 0x07] # [0x04, 0x03, 0x93, 0x20, 0x08] # fs)) \<and>
   (reqa_wupa ISO14443A_WUPA (uart self) = (Inr None, w1) \<and>
    sendrecv [ISO14443A_REQA] FLAG_SHORTFRAME w1 = (Inl e, w2) \<longrightarrow>
      read_tag self = (Inl e, self\<lparr>uart := w2\<rparr>) \<and> (\<exists>t. e = TimeoutError t))"
proof (intro conjI impI; (elim conjE)?)
  obtain r w2 where a: "request_atqa (uart self) = (r, w2)"
    by (cases "request_atqa (uart self)")
  obtain r1 v1 where w: "reqa_wupa ISO14443A_WUPA (uart self) = (r1, v1)"
    by (cases "reqa_wupa ISO14443A_WUPA (uart self)")
  have t1: "tx v1 = tx (uart self) @ [[0x04, 0x02, 0x52, 0x07]]"
    using tx_reqa_wupa [OF w] by (simp add: ISO14443A_WUPA_def)
  have "extends (tx v1) (tx w2)"
  proof (cases "r1 = Inr None")
    case True
    with w a have "reqa_wupa ISO14443A_REQA v1 = (r, w2)"
      by (simp add: request_atqa_reqa)
    from tx_reqa_wupa [OF this] show ?thesis
      by simp
  next
    case False
    with w a have "w2 = v1"
      by (cases r1) (auto simp: request_atqa_def)
    then show ?thesis
      by simp
  qed
  from extends_trans [OF this read_tag_after_atqa [OF a]] t1
  show "\<exists>fs. tx (uart (snd (read_tag self))) = tx (uart self) @ [0x04, 0x02, 0x52, 0x07] # fs"
    by (auto simp: extends_def)
next
  assume w: "reqa_wupa ISO14443A_WUPA (uart self) = (Inr None, w1)"
  obtain r w2 where q: "reqa_wupa ISO14443A_REQA w1 = (r, w2)"
    by (cases "reqa_wupa ISO14443A_REQA w1")
  have a: "request_atqa (uart self) = (r, w2)"
    using w q by (simp add: request_atqa_reqa)
  have t2: "tx w2 = tx (uart self) @ [[0x04, 0x02, 0x52, 0x07], [0x04, 0x02, 0x26, 0x07]]"
    using tx_reqa_wupa [OF w] tx_reqa_wupa [OF q]
    by (simp add: ISO14443A_WUPA_def ISO14443A_REQA_def)
  from read_tag_after_atqa [OF a] t2 show "\<exists>fs. tx (uart (snd (read_tag self))) =
             tx (uart self) @ [0x04, 0x02, 0x52, 0x07] # [0x04, 0x02, 0x26, 0x07] # fs"
    by (auto simp: extends_def)
next
  assume w: "reqa_wupa ISO14443A_WUPA (uart self) = (Inr None, w1)"
    and q: "reqa_wupa ISO14443A_REQA w1 = (Inr None, w2)"
  then have "request_atqa (uart self) = (Inr None, w2)"
    by (simp add: request_atqa_reqa)
  then show "read_tag self = (Inr None, self\<lparr>uart := w2\<rparr>)"
    by (simp add: read_tag_atqa)
next
  assume w: "reqa_wupa ISO14443A_WUPA (uart self) = (Inr None, w1)"
    and q: "reqa_wupa ISO14443A_REQA w1 = (Inr None, w2)"
  show "tx w2 = tx (uart self) @ [[0x04, 0x02, 0x52, 0x07], [0x04, 0x02, 0x26, 0x07]]"
    using tx_reqa_wupa [OF w] tx_reqa_wupa [OF q]
    by (simp add: ISO14443A_WUPA_def ISO14443A_REQA_def)
next
  assume w: "reqa_wupa ISO14443A_WUPA (uart self) = (Inr (Some atqa), w1)"
  then have a: "request_atqa (uart self) = (Inr (Some atqa), w1)"
    by (rule request_atqa_wupa)
  have t1: "tx w1 = tx (uart self) @ [[0x04, 0x02, 0x52, 0x07]]"
    using tx_reqa_wupa [OF w] by (simp add: ISO14443A_WUPA_def)
  obtain r3 w3 where c: "anticoll_cl1 w1 = (r3, w3)"
    by (cases "anticoll_cl1 w1")
  have t3: "tx w3 = tx w1 @ [[0x04, 0x03, 0x93, 0x20, 0x08]]"
    using c by (rule tx_anticoll_cl1)
  have "extends (tx w3) (tx (uart (snd (read_tag self))))"
    using a c by (cases atqa) (auto intro: read_tag_after_cl1)
  with t1 t3 show "\<exists>fs. tx (uart (snd (read_tag self))) =
             tx (uart self) @ [0x04, 0x02, 0x52, 0x07] # [0x04, 0x03, 0x93, 0x20, 0x08] # fs"
    by (auto simp: extends_def)
next
  assume "reqa_wupa ISO14443A_WUPA (uart self) = (Inr None, w1)"
    and "sendrecv [ISO14443A_REQA] FLAG_SHORTFRAME w1 = (Inl e, w2)"
  then show "read_tag self = (Inl e, self\<lparr>uart := w2\<rparr>)"
    by (rule read_tag_reqa_raises)
next
  assume "sendrecv [ISO14443A_REQA] FLAG_SHORTFRAME w1 = (Inl e, w2)"
  then show "\<exists>t. e = TimeoutError t"
    by (rule sendrecv_error [rotated]) simp
qed

theorem wupa_then_one_reqa_witness:
  "read_tag (fresh no_tag) =
     (Inr None,
      (fresh no_tag)\<lparr>uart := chan 2000 [] [[0x04, 0x02, 0x52, 0x07], [0x04, 0x02, 0x26, 0x07]]\<rparr>) \<and>
   take 2 (tx (uart (snd (read_tag (fresh tag4))))) =
     [[0x04, 0x02, 0x52, 0x07], [0x04, 0x02, 0x26, 0x07]] \<and>
   take 2 (tx (uart (snd (read_tag (fresh tag7))))) =
     [[0x04, 0x02, 0x52, 0x07], [0x04, 0x03, 0x93, 0x20, 0x08]] \<and>
   fst (read_tag (fresh (cut 1 no_tag))) = Inl (TimeoutError ResultCodeWait)"
proof -
  note t = wupa_then_one_reqa
  have "read_tag (fresh no_tag) =
     (Inr None,
      (fresh no_tag)\<lparr>uart := chan 2000 [] [[0x04, 0x02, 0x52, 0x07], [0x04, 0x02, 0x26, 0x07]]\<rparr>)"
    using t [THEN conjunct2, THEN conjunct2, THEN conjunct1, rule_format,
        OF conjI [OF wupa_fresh_unanswered [of _ "[]"] reqa_unanswered [of "[]"]]]
    by (simp add: no_tag_def)
  moreover have "take 2 (tx (uart (snd (read_tag (fresh tag4))))) =
     [[0x04, 0x02, 0x52, 0x07], [0x04, 0x02, 0x26, 0x07]]"
    using t [THEN conjunct2, THEN conjunct1, rule_format,
        OF wupa_fresh_unanswered [of "[[(300, [0x80, 0x02, 0x04]), (900, [0x00])],
          [(400, [0x80, 0x08, 0x01, 0x02, 0x03]), (1100, [0x04, 0x06, 0x28, 0x00, 0x00])],
          [(500, [0x80, 0x01, 0x08])]]" "[]"]]
    by (auto simp: tag4_def tag4_sak_def chan_def uart_fresh)
  moreover have "take 2 (tx (uart (snd (read_tag (fresh tag7))))) =
     [[0x04, 0x02, 0x52, 0x07], [0x04, 0x03, 0x93, 0x20, 0x08]]"
    using t [THEN conjunct2, THEN conjunct2, THEN conjunct2, THEN conjunct1, rule_format,
        OF wupa_fresh_answered [of "[[(400, [0x80, 0x05, 0x88, 0x11]), (1200, [0x22, 0x33, 0xAA])],
          [(500, [0x80, 0x01, 0x20])],
          [(400, [0x80, 0x05, 0x44, 0x55, 0x66, 0x77, 0xBB])],
          [(500, [0x80]), (2500, [0x01, 0x00])]]" "[]"]]
    by (auto simp: tag7_def tag7_sak_def chan_def uart_fresh)
  moreover have "fst (read_tag (fresh (cut 1 no_tag))) = Inl (TimeoutError ResultCodeWait)"
  proof -
    have "length [ISO14443A_REQA] < 255"
      by simp
    note s = sendrecv_chan_silent [OF this]
    from t [THEN conjunct2, THEN conjunct2, THEN conjunct2, THEN conjunct2, rule_format,
        OF conjI [OF wupa_fresh_unanswered [of "[]" "[]"] s]]
    show ?thesis
      by (simp add: cut_def no_tag_def chan_def)
  qed
  ultimately show ?thesis
    by simp
qed

text \<open>
  The chip answers WUPA with \<open>87 00\<close> and does not answer REQA: neither request gives an
  ATQA, both frames are written, and \<open>read_tag\<close> raises.
\<close>

theorem read_tag_reqa_lost_raises:
  "fst (reqa_wupa ISO14443A_WUPA (uart (fresh (cut 1 no_tag)))) = Inr None \<and>
   fst (read_tag (fresh (cut 1 no_tag))) = Inl (TimeoutError ResultCodeWait) \<and>
   tx (uart (snd (read_tag (fresh (cut 1 no_tag))))) =
     [[0x04, 0x02, 0x52, 0x07], [0x04, 0x02, 0x26, 0x07]]"
proof -
  have c: "cut 1 no_tag = chan 0 [[(300, [0x87, 0x00])]] []"
    by (simp add: cut_def no_tag_def chan_def)
  have "length [ISO14443A_REQA] < 255"
    by simp
  note s = sendrecv_chan_silent [OF this, of FLAG_SHORTFRAME 1000 "[] @ [[4, 2, 0x52, 7]]"]
  note r = read_tag_reqa_raises [OF wupa_fresh_unanswered [of "[]" "[]"] s]
  have "tx (snd (sendrecv [ISO14443A_REQA] FLAG_SHORTFRAME (chan 1000 [] ([] @ [[4, 2, 0x52, 7]])))) =
      tx (chan 1000 [] ([] @ [[4, 2, 0x52, 7]])) @
        [[CMD_SENDRECV, of_nat (Suc (length [ISO14443A_REQA]))] @ [ISO14443A_REQA] @
         [FLAG_SHORTFRAME]]"
    by (rule tx_sendrecv [OF _ s]) simp
  then have "tx (snd (sendrecv [ISO14443A_REQA] FLAG_SHORTFRAME
      (chan 1000 [] ([] @ [[4, 2, 0x52, 7]])))) = [[4, 2, 0x52, 7], [4, 2, 0x26, 7]]"
    by (simp add: chan_def consts_defs)
  with r show ?thesis
    unfolding c by (simp add: wupa_fresh_unanswered)
qed

text \<open>
  C8. A UID returned by \<open>read_tag\<close> has four or seven bytes, the bytes of the
  anticollision answers as they came: it is never empty and never cut short, and when the
  level-2 anticollision or the level-2 select gives no result the three level-1 bytes are
  dropped and \<open>read_tag\<close> returns \<open>(None, None)\<close>. The bytes themselves are not
  inspected: a tag that answers with null bytes gives an all-zero UID.
\<close>

theorem read_tag_uid_whole:
  "(read_tag self = (Inr (Some (uid, sak)), self') \<longrightarrow> length uid = 4 \<or> length uid = 7) \<and>
   (request_atqa (uart self) = (Inr (Some (atqa1, atqa2)), w2) \<and>
    anticoll_cl1 w2 = (Inr (Some cl1), w3) \<and> cl1 ! 0 = 0x88 \<and>
    select_cl1 cl1 w3 = (Inr (Some sak1), w4) \<and>
    (anticoll_cl2 w4 = (Inr None, w6) \<or>
     anticoll_cl2 w4 = (Inr (Some cl2), w5) \<and> select_cl2 cl2 w5 = (Inr None, w6)) \<longrightarrow>
      read_tag self =
        (Inr None, self\<lparr>last_atqa := (last_atqa self)[0 := atqa1, 1 := atqa2], uart := w6\<rparr>)) \<and>
   (request_atqa (uart self) = (Inr (Some (atqa1, atqa2)), w2) \<and>
    anticoll_cl1 w2 = (Inr (Some cl1), w3) \<and> cl1 ! 0 \<noteq> 0x88 \<and>
    select_cl1 cl1 w3 = (Inr (Some sak1), w4) \<longrightarrow>
      fst (read_tag self) = Inr (Some (take 4 cl1, sak1)))"
proof (intro conjI impI)
  assume "read_tag self = (Inr (Some (uid, sak)), self')"
  then show "length uid = 4 \<or> length uid = 7"
    by (rule read_tag_uid_length)
next
  assume "request_atqa (uart self) = (Inr (Some (atqa1, atqa2)), w2) \<and>
    anticoll_cl1 w2 = (Inr (Some cl1), w3) \<and> cl1 ! 0 = 0x88 \<and>
    select_cl1 cl1 w3 = (Inr (Some sak1), w4) \<and>
    (anticoll_cl2 w4 = (Inr None, w6) \<or>
     anticoll_cl2 w4 = (Inr (Some cl2), w5) \<and> select_cl2 cl2 w5 = (Inr None, w6))"
  then show "read_tag self =
        (Inr None, self\<lparr>last_atqa := (last_atqa self)[0 := atqa1, 1 := atqa2], uart := w6\<rparr>)"
    by (auto simp: read_tag_atqa ISO14443A_CT_def)
next
  assume "request_atqa (uart self) = (Inr (Some (atqa1, atqa2)), w2) \<and>
    anticoll_cl1 w2 = (Inr (Some cl1), w3) \<and> cl1 ! 0 \<noteq> 0x88 \<and>
    select_cl1 cl1 w3 = (Inr (Some sak1), w4)"
  then show "fst (read_tag self) = Inr (Some (take 4 cl1, sak1))"
    by (auto simp: read_tag_atqa ISO14443A_CT_def)
qed

theorem read_tag_uid_whole_witness:
  "fst (read_tag (fresh half_tag)) = Inr None \<and>
   fst (read_tag (fresh zero_tag)) = Inr (Some ([0x00, 0x00, 0x00, 0x00], 0x08)) \<and>
   (\<exists>uid. fst (read_tag (fresh tag7)) = Inr (Some (uid, 0x00)) \<and> length uid = 7)"
proof -
  note t = read_tag_uid_whole
  have c5: "[0x88, 0x11, 0x22, 0x33, 0xAA] ! 0 = (0x88 :: byte)"
    by simp
  have z5: "[0x00, 0x00, 0x00, 0x00, 0x00] ! 0 \<noteq> (0x88 :: byte)"
    by simp
  have "fst (read_tag (fresh half_tag)) = Inr None"
    using t [THEN conjunct2, THEN conjunct1, rule_format,
        OF conjI [OF atqa_answered [of _ "[]"] conjI [OF anticoll_cl1_cascade conjI [OF c5
          conjI [OF select_cl1_cascade [of "0x24"]
            disjI1 [OF anticoll_cl2_unanswered [of "[]"]]]]]]]
    by (simp add: half_tag_def)
  moreover have "fst (read_tag (fresh zero_tag)) = Inr (Some ([0x00, 0x00, 0x00, 0x00], 0x08))"
    using t [THEN conjunct2, THEN conjunct2, rule_format,
        OF conjI [OF atqa_answered [of _ "[]"] conjI [OF anticoll_cl1_zeros conjI [OF z5
          select_cl1_zeros [of "0x08" "[]"]]]]]
    by (simp add: zero_tag_def)
  moreover have "\<exists>uid. fst (read_tag (fresh tag7)) = Inr (Some (uid, 0x00)) \<and> length uid = 7"
  proof -
    have r7: "fst (read_tag (fresh tag7)) =
        Inr (Some ([0x11, 0x22, 0x33, 0x44, 0x55, 0x66, 0x77], 0x00))"
      by (simp add: read_tag_atqa tag7_def tag7_sak_def atqa_answered anticoll_cl1_cascade
            select_cl1_cascade anticoll_cl2_answered select_cl2_answered ISO14443A_CT_def)
    from t [THEN conjunct1, rule_format, OF r7 [THEN with_snd]] r7 show ?thesis
      by simp
  qed
  ultimately show ?thesis
    by simp
qed

text \<open>
  A level-1 anticollision frame of five null bytes, selected with SAK \<open>08\<close>: the UID
  returned is all zero.
\<close>

theorem read_tag_all_zero_uid:
  "fst (read_tag (fresh zero_tag)) = Inr (Some ([0x00, 0x00, 0x00, 0x00], 0x08))"
  by (simp add: read_tag_atqa zero_tag_def atqa_answered anticoll_cl1_zeros select_cl1_zeros
        ISO14443A_CT_def)




text \<open>
  C10. \<open>field_off\<close> writes the protocol command with the mode \<open>off\<close>, one frame, and
  reads one response with a timeout of 50 ms. Whatever response frame comes, success code or
  not, \<open>field_off\<close> returns normally. The read itself has to succeed: when no complete
  response comes in time the \<open>TimeoutError\<close> of \<open>_read_response\<close> leaves \<open>field_off\<close>
  as an exception.
\<close>

theorem field_off_reads_one_response:
  "tx (uart (snd (field_off self))) = tx (uart self) @ [[0x02, 0x02, 0x00, 0x00]] \<and>
   (read_response 50 (snd (send_cmd CMD_PROTOCOL [PROTO_OFF, 0x00] (uart self))) =
      (Inr (code, data), w2) \<longrightarrow> field_off self = (Inr (), self\<lparr>uart := w2\<rparr>)) \<and>
   (read_response 50 (snd (send_cmd CMD_PROTOCOL [PROTO_OFF, 0x00] (uart self))) =
      (Inl e, w2) \<longrightarrow> field_off self = (Inl e, self\<lparr>uart := w2\<rparr>) \<and> (\<exists>t. e = TimeoutError t))"
proof (intro conjI impI)
  let ?w1 = "uart_write ([CMD_PROTOCOL, 2] @ [PROTO_OFF, 0x00]) (flush_rx (uart self))"
  have s: "send_cmd CMD_PROTOCOL [PROTO_OFF, 0x00] (uart self) = (Inr (), ?w1)"
    using send_cmd_ok [of "[PROTO_OFF, 0x00]" CMD_PROTOCOL "uart self"] by simp
  have "uart (snd (field_off self)) = snd (read_response 50 ?w1)"
    by (simp add: field_off_def s split: prod.splits sum.splits)
  then show "tx (uart (snd (field_off self))) = tx (uart self) @ [[0x02, 0x02, 0x00, 0x00]]"
    by (simp add: tx_read_response tx_uart_write flush_rx_fields consts_defs)
next
  assume "read_response 50 (snd (send_cmd CMD_PROTOCOL [PROTO_OFF, 0x00] (uart self))) =
      (Inr (code, data), w2)"
  then show "field_off self = (Inr (), self\<lparr>uart := w2\<rparr>)"
    by (simp add: field_off_unfold)
next
  assume "read_response 50 (snd (send_cmd CMD_PROTOCOL [PROTO_OFF, 0x00] (uart self))) =
      (Inl e, w2)"
  then show "field_off self = (Inl e, self\<lparr>uart := w2\<rparr>)"
    by (simp add: field_off_unfold)
next
  assume "read_response 50 (snd (send_cmd CMD_PROTOCOL [PROTO_OFF, 0x00] (uart self))) =
      (Inl e, w2)"
  from read_response_sound [OF this] show "\<exists>t. e = TimeoutError t"
    by auto
qed

theorem field_off_reads_one_response_witness:
  "field_off (fresh (chip_off 0x00)) =
     (Inr (), (fresh (chip_off 0x00))\<lparr>uart := chan 1000 [] [[0x02, 0x02, 0x00, 0x00]]\<rparr>) \<and>
   fst (field_off (fresh (chip_off 0x82))) = Inr () \<and>
   fst (field_off (fresh (cut 0 (chip_off 0x00)))) = Inl (TimeoutError ResultCodeWait) \<and>
   tx (uart (snd (field_off (fresh (cut 0 (chip_off 0x00)))))) = [[0x02, 0x02, 0x00, 0x00]]"
proof -
  note t = field_off_reads_one_response
  have a: "read_response 50 (snd (send_cmd CMD_PROTOCOL [PROTO_OFF, 0x00]
      (uart (fresh (chip_off code))))) = (Inr (code, []), chan 1000 [] [[2, 2, 0, 0]])" for code
    using field_off_answered [of code "[]" "[]"] by (simp add: chip_off_def uart_fresh)
  have c: "cut 0 (chip_off 0x00) = chan 0 [] []"
    by (simp add: cut_def chip_off_def chan_def)
  have s: "read_response 50 (snd (send_cmd CMD_PROTOCOL [PROTO_OFF, 0x00]
      (uart (fresh (cut 0 (chip_off 0x00)))))) =
      (Inl (TimeoutError ResultCodeWait),
       snd (read_response 50 (snd (send_cmd CMD_PROTOCOL [PROTO_OFF, 0x00]
         (uart (fresh (cut 0 (chip_off 0x00))))))))"
    unfolding c uart_fresh by (rule read_response_chan_silent) simp
  have "field_off (fresh (chip_off 0x00)) =
     (Inr (), (fresh (chip_off 0x00))\<lparr>uart := chan 1000 [] [[0x02, 0x02, 0x00, 0x00]]\<rparr>)"
    using t [THEN conjunct2, THEN conjunct1, rule_format, OF a [of "0x00"]] by simp
  moreover have "fst (field_off (fresh (chip_off 0x82))) = Inr ()"
    using t [THEN conjunct2, THEN conjunct1, rule_format, OF a [of "0x82"]] by simp
  moreover have "fst (field_off (fresh (cut 0 (chip_off 0x00)))) =
      Inl (TimeoutError ResultCodeWait)"
    using t [THEN conjunct2, THEN conjunct2, rule_format, OF s] by simp
  moreover have "tx (uart (snd (field_off (fresh (cut 0 (chip_off 0x00)))))) =
      [[0x02, 0x02, 0x00, 0x00]]"
    using t [THEN conjunct1, of "fresh (cut 0 (chip_off 0x00))"]
    by (simp add: c uart_fresh chan_def)
  ultimately show ?thesis
    by simp
qed

text \<open>With a chip that does not answer, \<open>field_off\<close> raises.\<close>

theorem field_off_mute_raises:
  "fst (field_off (fresh mute)) = Inl (TimeoutError ResultCodeWait)"
proof -
  have "fst (read_response 50 (snd (send_cmd CMD_PROTOCOL [PROTO_OFF, 0x00]
      (uart (fresh mute))))) = Inl (TimeoutError ResultCodeWait)"
    by (rule send_cmd_silent) (simp_all add: uart_fresh mute_def chan_def)
  from field_off_raises [OF this [THEN with_snd]] show ?thesis
    by simp
qed

end
